theory Spec2Isabelle
  imports Complex_Main "HOL-Library.AList" "HOL-Library.Code_Target_Numeral"
begin

section \<open>Python strings\<close>

text \<open>
  A Python \<open>str\<close> is modelled as a \<open>string\<close>, a list of characters with code points
  below 256. On these code points the character classes below are the ones of
  \<open>str.isspace\<close> (so of \<open>str.strip\<close>), of the regular-expression class \<open>\d\<close>, of
  \<open>str.splitlines\<close> and of \<open>str.lower\<close>; code points from 256 on are outside the model.
\<close>

definition is_digit :: "char \<Rightarrow> bool" where
  "is_digit c = (c \<in> set ''0123456789'')"

definition is_space :: "char \<Rightarrow> bool" where
  \<comment> \<open>tab to carriage return, the four separators, the space, NEL and the no-break space\<close>
  "is_space c = (c \<in> set [CHR 0x09, CHR 0x0A, CHR 0x0B, CHR 0x0C, CHR 0x0D,
                            CHR 0x1C, CHR 0x1D, CHR 0x1E, CHR 0x1F, CHR 0x20,
                            CHR 0x85, CHR 0xA0])"

definition is_linebreak :: "char \<Rightarrow> bool" where
  "is_linebreak c = (c \<in> set [CHR 0x0A, CHR 0x0B, CHR 0x0C, CHR 0x0D,
                                CHR 0x1C, CHR 0x1D, CHR 0x1E, CHR 0x85])"

definition strip :: "string \<Rightarrow> string" where
  \<comment> \<open>\<open>s.strip()\<close>\<close>
  "strip s = rev (dropWhile is_space (rev (dropWhile is_space s)))"

definition upper_letters :: string where
  \<comment> \<open>the letters \<open>str.lower\<close> changes: A to Z, and the capital letters from U+00C0 to U+00DE\<close>
  "upper_letters =
     ''ABCDEFGHIJKLMNOPQRSTUVWXYZ'' @
     [CHR 0xC0, CHR 0xC1, CHR 0xC2, CHR 0xC3, CHR 0xC4, CHR 0xC5, CHR 0xC6, CHR 0xC7,
      CHR 0xC8, CHR 0xC9, CHR 0xCA, CHR 0xCB, CHR 0xCC, CHR 0xCD, CHR 0xCE, CHR 0xCF,
      CHR 0xD0, CHR 0xD1, CHR 0xD2, CHR 0xD3, CHR 0xD4, CHR 0xD5, CHR 0xD6, CHR 0xD8,
      CHR 0xD9, CHR 0xDA, CHR 0xDB, CHR 0xDC, CHR 0xDD, CHR 0xDE]"

definition lower_letters :: string where
  "lower_letters =
     ''abcdefghijklmnopqrstuvwxyz'' @
     [CHR 0xE0, CHR 0xE1, CHR 0xE2, CHR 0xE3, CHR 0xE4, CHR 0xE5, CHR 0xE6, CHR 0xE7,
      CHR 0xE8, CHR 0xE9, CHR 0xEA, CHR 0xEB, CHR 0xEC, CHR 0xED, CHR 0xEE, CHR 0xEF,
      CHR 0xF0, CHR 0xF1, CHR 0xF2, CHR 0xF3, CHR 0xF4, CHR 0xF5, CHR 0xF6, CHR 0xF8,
      CHR 0xF9, CHR 0xFA, CHR 0xFB, CHR 0xFC, CHR 0xFD, CHR 0xFE]"

definition lower_char :: "char \<Rightarrow> char" where
  "lower_char c = (case map_of (zip upper_letters lower_letters) c of Some d \<Rightarrow> d | None \<Rightarrow> c)"

definition lower :: "string \<Rightarrow> string" where
  \<comment> \<open>\<open>s.lower()\<close>\<close>
  "lower s = map lower_char s"

fun startswith :: "string \<Rightarrow> string \<Rightarrow> bool" where
  \<comment> \<open>\<open>startswith s p\<close> is \<open>s.startswith(p)\<close>\<close>
  "startswith s [] = True"
| "startswith [] (p # ps) = False"
| "startswith (c # cs) (p # ps) = (c = p \<and> startswith cs ps)"

fun contains :: "string \<Rightarrow> string \<Rightarrow> bool" where
  \<comment> \<open>\<open>contains s p\<close> is the Python test \<open>p in s\<close>\<close>
  "contains [] p = (p = [])"
| "contains (c # cs) p = (startswith (c # cs) p \<or> contains cs p)"

function splitlines :: "string \<Rightarrow> string list" where
  \<comment> \<open>\<open>s.splitlines()\<close>: a line ends at a line boundary, \<open>\r\n\<close> counts as one
      boundary, and no empty last line is produced after a final boundary\<close>
  "splitlines [] = []"
| "splitlines (c # cs) =
     (let s = c # cs;
          line = takeWhile (\<lambda>x. \<not> is_linebreak x) s;
          rest = dropWhile (\<lambda>x. \<not> is_linebreak x) s
      in line #
         (case rest of
            [] \<Rightarrow> []
          | b # r \<Rightarrow>
              splitlines (if b = CHR 0x0D \<and> startswith r [CHR 0x0A] then tl r else r)))"
  by pat_completeness auto
termination
proof (relation "measure length", goal_cases)
  case 1
  show ?case by simp
next
  case (2 c cs s line rest b r)
  have "length (dropWhile (\<lambda>x. \<not> is_linebreak x) (c # cs)) \<le> length (c # cs)"
    by (rule length_dropWhile_le)
  with 2 have "length (b # r) \<le> Suc (length cs)"
    by simp
  moreover have "length (tl r) \<le> length r"
    by simp
  ultimately show ?case
    by (auto split: if_splits)
qed

section \<open>Question segmentation\<close>

definition re_match_enum :: "string \<Rightarrow> bool" where
  \<comment> \<open>\<open>re.match(r'^\d+\.\s*', line)\<close> finds a match: one or more digits, a dot, and
      then any run of whitespace, which may be empty and so never decides the outcome\<close>
  "re_match_enum line =
     (let ds = takeWhile is_digit line; rest = dropWhile is_digit line
      in ds \<noteq> [] \<and> startswith rest ''.'')"

definition segment_questions :: "string \<Rightarrow> string list" where
  \<comment> \<open>lines 56 to 60 of \<open>answer_questions\<close>\<close>
  "segment_questions question_str =
     (let questions = [strip line. line \<leftarrow> splitlines question_str,
                                   re_match_enum (strip line)]
      in if questions = [] \<and> strip question_str \<noteq> [] then [strip question_str]
         else questions)"

definition is_enumerated :: "string \<Rightarrow> bool" where
  \<comment> \<open>the specification's wording: the line starts with digits followed by a dot\<close>
  "is_enumerated line =
     (\<exists>ds rest. ds \<noteq> [] \<and> list_all is_digit ds \<and> line = ds @ ''.'' @ rest)"

definition is_trim :: "string \<Rightarrow> string \<Rightarrow> bool" where
  \<comment> \<open>the specification's wording: \<open>t\<close> is \<open>s\<close> without its leading and trailing whitespace\<close>
  "is_trim s t =
     (\<exists>a b. s = a @ t @ b \<and> list_all is_space a \<and> list_all is_space b
            \<and> (t = [] \<or> (\<not> is_space (hd t) \<and> \<not> is_space (last t))))"

inductive lines_of :: "string \<Rightarrow> string list \<Rightarrow> bool" where
  \<comment> \<open>the specification's wording: the lines of a text, in document order. A line holds no
      line boundary; it ends at a boundary or at the end of the text; a carriage return
      followed by a line feed is one boundary; after the last boundary there is a line
      only if characters remain\<close>
  no_line: "lines_of [] []"
| last_line: "l \<noteq> [] \<Longrightarrow> \<not> list_ex is_linebreak l \<Longrightarrow> lines_of l [l]"
| line:
    "\<not> list_ex is_linebreak l \<Longrightarrow> is_linebreak b
     \<Longrightarrow> \<not> (b = CHR 0x0D \<and> startswith r [CHR 0x0A])
     \<Longrightarrow> lines_of r ls \<Longrightarrow> lines_of (l @ b # r) (l # ls)"
| crlf_line:
    "\<not> list_ex is_linebreak l \<Longrightarrow> lines_of r ls
     \<Longrightarrow> lines_of (l @ CHR 0x0D # CHR 0x0A # r) (l # ls)"

section \<open>Tables\<close>

text \<open>
  A pandas \<open>DataFrame\<close> is a row index of \<open>nrows\<close> labels and an ordered list of
  named columns. A cell is a text, an integer, a float or the missing value \<open>nan\<close>.
  Floats are modelled by the real number they stand for: binary rounding and the
  infinities are outside the model. Column labels are strings. The model follows
  pandas on tables whose labels stay pairwise distinct after trimming (\<open>wf_df\<close>).
\<close>

datatype cell = Txt string | Intg int | Flt real | NaN

record dataframe =
  nrows :: nat
  cols :: "(string \<times> cell list) list"

text \<open>
  A column has one dtype: \<open>object\<close> when it holds a text, \<open>int64\<close> when it holds integers
  only, and \<open>float64\<close> otherwise. In a \<open>float64\<close> column every number is a float, and that
  is the value Python code sees when it reads a cell.
\<close>

datatype dtype = Int64 | Float64 | Object

definition dtype_of :: "cell list \<Rightarrow> dtype" where
  "dtype_of v =
     (if list_ex (\<lambda>c. case c of Txt s \<Rightarrow> True | _ \<Rightarrow> False) v then Object
      else if list_all (\<lambda>c. case c of Intg i \<Rightarrow> True | _ \<Rightarrow> False) v then Int64
      else Float64)"

fun astype :: "dtype \<Rightarrow> cell \<Rightarrow> cell" where
  "astype Float64 (Intg i) = Flt (of_int i)"
| "astype t c = c"

definition series_values :: "cell list \<Rightarrow> cell list" where
  \<comment> \<open>the cells of a column as the values \<open>Series.apply\<close> passes to its function\<close>
  "series_values v = map (astype (dtype_of v)) v"

definition columns :: "dataframe \<Rightarrow> string list" where
  \<comment> \<open>\<open>df.columns\<close>\<close>
  "columns d = map fst (cols d)"

definition df_empty :: "dataframe \<Rightarrow> bool" where
  \<comment> \<open>\<open>df.empty\<close>: one of the two axes has length 0\<close>
  "df_empty d = (nrows d = 0 \<or> cols d = [])"

definition getitem :: "dataframe \<Rightarrow> string \<Rightarrow> cell list" where
  \<comment> \<open>\<open>df[c]\<close>; the source reads a column only after testing that it is present\<close>
  "getitem d c = (case map_of (cols d) c of Some v \<Rightarrow> v | None \<Rightarrow> [])"

definition setitem :: "string \<Rightarrow> cell list \<Rightarrow> dataframe \<Rightarrow> dataframe" where
  \<comment> \<open>\<open>df[c] = v\<close>: replaces the column in place, or appends a new last column\<close>
  "setitem c v d = d\<lparr>cols := AList.update c v (cols d)\<rparr>"

definition rename_col :: "string \<Rightarrow> string \<Rightarrow> dataframe \<Rightarrow> dataframe" where
  \<comment> \<open>\<open>df.rename(columns={old: new})\<close>\<close>
  "rename_col old new d = d\<lparr>cols := map (\<lambda>(k, v). (if k = old then new else k, v)) (cols d)\<rparr>"

definition wf_df :: "dataframe \<Rightarrow> bool" where
  "wf_df d = (distinct (map strip (columns d)) \<and> list_all (\<lambda>(k, v). length v = nrows d) (cols d))"

section \<open>Library functions\<close>

text \<open>
  The numeric and drawing libraries are parameters of the model. \<open>None\<close> stands for
  the float \<open>nan\<close> in a \<open>pyfloat\<close>.
\<close>

datatype exn = TypeError | ValueError

type_synonym pyfloat = "real option"

record figure =
  figsize :: "nat \<times> nat"
  scatter :: "real list \<times> real list"
  trend :: "(real list \<times> pyfloat list) option"

record pylib =
  repr_float :: "real \<Rightarrow> string"
    \<comment> \<open>\<open>str(x)\<close> of a float\<close>
  to_numeric_str :: "string \<Rightarrow> real option"
    \<comment> \<open>\<open>pd.to_numeric(..., errors="coerce")\<close> on one text cell; \<open>None\<close> when coerced to \<open>nan\<close>\<close>
  corr :: "real list \<Rightarrow> real list \<Rightarrow> pyfloat"
    \<comment> \<open>\<open>Series.corr\<close>, the Pearson coefficient of two columns without missing values\<close>
  linregress :: "real list \<Rightarrow> real list \<Rightarrow> exn + (pyfloat \<times> pyfloat)"
    \<comment> \<open>\<open>scipy.stats.linregress\<close>: slope and intercept, or the exception it raises\<close>
  savefig_b64 :: "figure \<Rightarrow> string"
    \<comment> \<open>\<open>plt.savefig\<close> to PNG bytes, then \<open>base64.b64encode(...).decode("utf-8")\<close>\<close>

section \<open>Reading numbers\<close>

definition digit_char :: "nat \<Rightarrow> char" where
  "digit_char n = ''0123456789'' ! (n mod 10)"

function str_nat :: "nat \<Rightarrow> string" where
  "str_nat n = (if n < 10 then [digit_char n] else str_nat (n div 10) @ [digit_char n])"
  by pat_completeness auto
termination
  by (relation "measure id") auto

definition str_int :: "int \<Rightarrow> string" where
  "str_int i = (if i < 0 then CHR ''-'' # str_nat (nat (- i)) else str_nat (nat i))"

definition py_str :: "pylib \<Rightarrow> cell \<Rightarrow> string" where
  \<comment> \<open>\<open>str(x)\<close> of a cell\<close>
  "py_str L x =
     (case x of Txt s \<Rightarrow> s | Intg i \<Rightarrow> str_int i | Flt r \<Rightarrow> repr_float L r | NaN \<Rightarrow> ''nan'')"

definition digit_val :: "char \<Rightarrow> nat" where
  "digit_val c =
     (case map_of (zip ''0123456789'' [0, 1, 2, 3, 4, 5, 6, 7, 8, 9]) c of
        Some n \<Rightarrow> n
      | None \<Rightarrow> 0)"

definition digits_val :: "string \<Rightarrow> nat" where
  "digits_val ds = foldl (\<lambda>a c. 10 * a + digit_val c) 0 ds"

definition py_float :: "string \<Rightarrow> real option" where
  \<comment> \<open>\<open>float(s)\<close> on the strings that reach it here, which hold digits and dots only:
      \<open>None\<close> is the \<open>ValueError\<close>. A number needs a digit and has at most one dot.\<close>
  "py_float s =
     (let ip = takeWhile is_digit s; rest = dropWhile is_digit s
      in case rest of
           [] \<Rightarrow> if ip = [] then None else Some (of_nat (digits_val ip))
         | c # fp \<Rightarrow>
             if c = CHR ''.'' \<and> list_all is_digit fp \<and> (ip \<noteq> [] \<or> fp \<noteq> [])
             then Some (of_nat (digits_val ip) + of_nat (digits_val fp) / 10 ^ length fp)
             else None)"

section \<open>The column normalizer\<close>

definition gross_aliases :: "string list" where
  "gross_aliases = [''Gross'', ''Worldwide gross'', ''Worldwide Gross'', ''Worldwide box office'']"

definition parse_gross :: "pylib \<Rightarrow> cell \<Rightarrow> cell" where
  "parse_gross L x =
     (let s = py_str L x;
          s = filter (\<lambda>c. is_digit c \<or> c = CHR ''.'' \<or> c = CHR '','') s;
          s = filter (\<lambda>c. c \<noteq> CHR '','') s
      in case py_float s of
           None \<Rightarrow> NaN
         | Some val \<Rightarrow> Flt (val / 1000000000))"

definition to_numeric :: "pylib \<Rightarrow> cell \<Rightarrow> cell" where
  \<comment> \<open>\<open>pd.to_numeric(..., errors="coerce")\<close>, cell by cell\<close>
  "to_numeric L x =
     (case x of
        Txt s \<Rightarrow> (case to_numeric_str L s of None \<Rightarrow> NaN | Some r \<Rightarrow> Flt r)
      | _ \<Rightarrow> x)"

definition strip_columns :: "dataframe \<Rightarrow> dataframe" where
  \<comment> \<open>\<open>out.columns = [str(c).strip() for c in out.columns]\<close>\<close>
  "strip_columns out = out\<lparr>cols := map (\<lambda>(c, v). (strip c, v)) (cols out)\<rparr>"

definition find_gross_col :: "dataframe \<Rightarrow> string option" where
  \<comment> \<open>\<open>next((c for c in gross_aliases if c in out.columns), None)\<close>\<close>
  "find_gross_col out = find (\<lambda>c. c \<in> set (columns out)) gross_aliases"

definition needs_rename :: "dataframe \<Rightarrow> bool" where
  \<comment> \<open>\<open>gross_col and "Gross" not in out.columns\<close>\<close>
  "needs_rename out = (find_gross_col out \<noteq> None \<and> ''Gross'' \<notin> set (columns out))"

definition alias_gross :: "dataframe \<Rightarrow> dataframe" where
  "alias_gross out =
     (if needs_rename out
      then (case find_gross_col out of Some g \<Rightarrow> rename_col g ''Gross'' out | None \<Rightarrow> out)
      else out)"

definition add_gross_num :: "pylib \<Rightarrow> dataframe \<Rightarrow> dataframe" where
  "add_gross_num L out =
     (if ''Gross'' \<in> set (columns out)
      then setitem ''GrossNum'' (map (parse_gross L) (series_values (getitem out ''Gross''))) out
      else out)"

definition coerce_col :: "pylib \<Rightarrow> string \<Rightarrow> dataframe \<Rightarrow> dataframe" where
  "coerce_col L c out =
     (if c \<in> set (columns out)
      then setitem c (map (to_numeric L) (getitem out c)) out
      else out)"

definition coerce_numeric :: "pylib \<Rightarrow> dataframe \<Rightarrow> dataframe" where
  \<comment> \<open>\<open>for c in ("Year", "Rank", "Peak"): ...\<close>\<close>
  "coerce_numeric L out = fold (coerce_col L) [''Year'', ''Rank'', ''Peak''] out"

definition normalize_df :: "pylib \<Rightarrow> dataframe option \<Rightarrow> dataframe option" where
  \<comment> \<open>\<open>_normalize_df\<close>, as a function of the table's value\<close>
  "normalize_df L df =
     (case df of
        None \<Rightarrow> None
      | Some d \<Rightarrow>
          if df_empty d then None
          else let out = d;
                   out = strip_columns out;
                   out = alias_gross out;
                   out = add_gross_num L out;
                   out = coerce_numeric L out
               in Some out)"

subsection \<open>The normalizer on a store of table objects\<close>




section \<open>Answers\<close>

datatype answer = AInt int | AStr string | AFloat real

fun as_num :: "cell \<Rightarrow> exn + pyfloat" where
  \<comment> \<open>the value a numeric comparison or statistic reads from a cell; a text cell makes
      pandas raise \<open>TypeError\<close>\<close>
  "as_num (Txt s) = Inl TypeError"
| "as_num (Intg i) = Inr (Some (of_int i))"
| "as_num (Flt r) = Inr (Some r)"
| "as_num NaN = Inr None"

fun col_nums :: "cell list \<Rightarrow> exn + pyfloat list" where
  "col_nums [] = Inr []"
| "col_nums (c # cs) =
     (case as_num c of
        Inl e \<Rightarrow> Inl e
      | Inr v \<Rightarrow> (case col_nums cs of Inl e \<Rightarrow> Inl e | Inr vs \<Rightarrow> Inr (v # vs)))"

definition f_ge :: "pyfloat \<Rightarrow> real \<Rightarrow> bool" where
  \<comment> \<open>\<open>a >= b\<close>; a comparison with \<open>nan\<close> is false\<close>
  "f_ge a b = (case a of None \<Rightarrow> False | Some x \<Rightarrow> x \<ge> b)"

definition f_gt :: "pyfloat \<Rightarrow> real \<Rightarrow> bool" where
  "f_gt a b = (case a of None \<Rightarrow> False | Some x \<Rightarrow> x > b)"

definition f_lt :: "pyfloat \<Rightarrow> real \<Rightarrow> bool" where
  "f_lt a b = (case a of None \<Rightarrow> False | Some x \<Rightarrow> x < b)"

definition f_add :: "pyfloat \<Rightarrow> pyfloat \<Rightarrow> pyfloat" where
  "f_add a b = (case (a, b) of (Some x, Some y) \<Rightarrow> Some (x + y) | _ \<Rightarrow> None)"

definition f_mul :: "pyfloat \<Rightarrow> pyfloat \<Rightarrow> pyfloat" where
  "f_mul a b = (case (a, b) of (Some x, Some y) \<Rightarrow> Some (x * y) | _ \<Rightarrow> None)"

definition has_columns :: "dataframe \<Rightarrow> string list \<Rightarrow> bool" where
  \<comment> \<open>\<open>{...}.issubset(ndf.columns)\<close>\<close>
  "has_columns d cs = (set cs \<subseteq> set (columns d))"

definition count_before_year :: "dataframe option \<Rightarrow> exn + answer" where
  "count_before_year ndf =
     (case ndf of
        None \<Rightarrow> Inr (AInt 0)
      | Some d \<Rightarrow>
          if \<not> has_columns d [''GrossNum'', ''Year''] then Inr (AInt 0)
          else (case col_nums (getitem d ''GrossNum'') of
                  Inl e \<Rightarrow> Inl e
                | Inr gs \<Rightarrow>
                    (case col_nums (getitem d ''Year'') of
                       Inl e \<Rightarrow> Inl e
                     | Inr ys \<Rightarrow>
                         let count = length (filter (\<lambda>(g, y). f_ge g 2 \<and> f_lt y 2000) (zip gs ys))
                         in Inr (AInt (int count)))))"

text \<open>
  \<open>filtered.sort_values(...).iloc[0]\<close> is a row as a \<open>Series\<close>, which has one dtype for all its
  elements: \<open>object\<close> when a column of the table is \<open>object\<close>, and otherwise \<open>float64\<close>
  when a column is, so that an integer of an all-numeric row is read as a float.
\<close>

definition common_dtype :: "dtype list \<Rightarrow> dtype" where
  "common_dtype ts =
     (if Object \<in> set ts then Object else if Float64 \<in> set ts then Float64 else Int64)"

definition row_item :: "dataframe \<Rightarrow> string \<Rightarrow> cell \<Rightarrow> cell" where
  \<comment> \<open>\<open>row[c]\<close> for a row \<open>df.iloc[k]\<close> of the table, from the cell of column \<open>c\<close> in that row\<close>
  "row_item d c x =
     astype (common_dtype (map (\<lambda>(k, v). dtype_of v) (cols d))) (astype (dtype_of (getitem d c)) x)"

definition earliest_above :: "pylib \<Rightarrow> dataframe option \<Rightarrow> exn + answer" where
  "earliest_above L ndf =
     (case ndf of
        None \<Rightarrow> Inr (AStr [])
      | Some d \<Rightarrow>
          if \<not> has_columns d [''GrossNum'', ''Year''] \<or> ''Title'' \<notin> set (columns d)
          then Inr (AStr [])
          else (case col_nums (getitem d ''GrossNum'') of
                  Inl e \<Rightarrow> Inl e
                | Inr gs \<Rightarrow>
                    (case col_nums (getitem d ''Year'') of
                       Inl e \<Rightarrow> Inl e
                     | Inr ys \<Rightarrow>
                         let rows = zip gs (zip ys (getitem d ''Title''));
                             filtered = filter (\<lambda>(g, y, t). f_gt g (3 / 2)) rows;
                             filtered = [(y, t). (g, Some y, t) \<leftarrow> filtered]
                         in if filtered = [] then Inr (AStr [])
                            else let earliest = hd (sort_key fst filtered)
                                 in Inr (AStr (py_str L (row_item d ''Title'' (snd earliest)))))))"

definition dropna2 :: "pyfloat list \<Rightarrow> pyfloat list \<Rightarrow> (real \<times> real) list" where
  \<comment> \<open>\<open>ndf[["Rank", "Peak"]].dropna()\<close>: the rows in which both values are present\<close>
  "dropna2 rs ps = [(r, p). (Some r, Some p) \<leftarrow> zip rs ps]"

definition round_half_even :: "real \<Rightarrow> int" where
  "round_half_even y =
     (let f = \<lfloor>y\<rfloor>; d = y - of_int f
      in if d < 1 / 2 then f else if d > 1 / 2 then f + 1 else if even f then f else f + 1)"

definition round6 :: "real \<Rightarrow> real" where
  \<comment> \<open>\<open>round(x, 6)\<close>\<close>
  "round6 x = of_int (round_half_even (x * 1000000)) / 1000000"

definition correlation :: "pylib \<Rightarrow> dataframe option \<Rightarrow> exn + answer" where
  "correlation L ndf =
     (case ndf of
        None \<Rightarrow> Inr (AFloat 0)
      | Some d \<Rightarrow>
          if \<not> has_columns d [''Rank'', ''Peak''] then Inr (AFloat 0)
          else (case col_nums (getitem d ''Rank'') of
                  Inl e \<Rightarrow> Inl e
                | Inr rs \<Rightarrow>
                    (case col_nums (getitem d ''Peak'') of
                       Inl e \<Rightarrow> Inl e
                     | Inr ps \<Rightarrow>
                         let sub = dropna2 rs ps
                         in if sub = [] then Inr (AFloat 0)
                            else let c = corr L (map fst sub) (map snd sub)
                                 in Inr (AFloat (round6 (case c of None \<Rightarrow> 0 | Some v \<Rightarrow> v))))))"

definition list_min :: "real list \<Rightarrow> real" where
  "list_min xs = fold min (tl xs) (hd xs)"

definition list_max :: "real list \<Rightarrow> real" where
  "list_max xs = fold max (tl xs) (hd xs)"

definition data_uri_limit :: nat where
  "data_uri_limit = 100000"

text \<open>
  The drawing library keeps the figures that are open. The state threaded through the
  plot is their number: \<open>plt.subplots\<close> opens one, \<open>plt.close(fig)\<close> closes it. An
  exception leaves the branch at once, with the state it found.
\<close>

definition scatterplot :: "pylib \<Rightarrow> dataframe option \<Rightarrow> nat \<Rightarrow> (exn + answer) \<times> nat" where
  "scatterplot L ndf figs =
     (case ndf of
        None \<Rightarrow> (Inr (AStr []), figs)
      | Some d \<Rightarrow>
          if \<not> has_columns d [''Rank'', ''Peak''] then (Inr (AStr []), figs)
          else (case col_nums (getitem d ''Rank'') of
                  Inl e \<Rightarrow> (Inl e, figs)
                | Inr rs \<Rightarrow>
                    (case col_nums (getitem d ''Peak'') of
                       Inl e \<Rightarrow> (Inl e, figs)
                     | Inr ps \<Rightarrow>
                         let sub = dropna2 rs ps
                         in if sub = [] then (Inr (AStr []), figs)
                            else
                              let figs = figs + 1;
                                  rank = map fst sub;
                                  peak = map snd sub
                              in (case linregress L rank peak of
                                    Inl e \<Rightarrow> (Inl e, figs)
                                  | Inr (slope, intercept) \<Rightarrow>
                                      let x_vals = [list_min rank, list_max rank];
                                          y_vals = map (\<lambda>x. f_add intercept (f_mul slope (Some x))) x_vals;
                                          fig = \<lparr>figsize = (6, 4), scatter = (rank, peak),
                                                 trend = Some (x_vals, y_vals)\<rparr>;
                                          png = savefig_b64 L fig;
                                          figs = figs - 1;
                                          data_uri = ''data:image/png;base64,'' @ png;
                                          data_uri = (if length data_uri > data_uri_limit
                                                      then take data_uri_limit data_uri
                                                      else data_uri)
                                      in (Inr (AStr data_uri), figs)))))"

section \<open>Dispatching and answering\<close>

definition answer_one :: "pylib \<Rightarrow> dataframe option \<Rightarrow> string \<Rightarrow> nat \<Rightarrow> (exn + answer) \<times> nat" where
  \<comment> \<open>the body of the loop over the questions\<close>
  "answer_one L ndf q figs =
     (let q_lower = lower q
      in if contains q_lower ''how many'' \<and> contains q_lower ''$2 bn''
            \<and> contains q_lower ''before 2000''
         then (count_before_year ndf, figs)
         else if contains q_lower ''earliest film'' \<and> contains q_lower ''1.5 bn''
         then (earliest_above L ndf, figs)
         else if contains q_lower ''correlation'' \<and> contains q_lower ''rank''
                 \<and> contains q_lower ''peak''
         then (correlation L ndf, figs)
         else if contains q_lower ''scatterplot'' \<and> contains q_lower ''rank''
                 \<and> contains q_lower ''peak''
         then scatterplot L ndf figs
         else (Inr (AStr ''Question not recognized or data missing''), figs))"

fun answer_loop ::
  "pylib \<Rightarrow> dataframe option \<Rightarrow> string list \<Rightarrow> answer list \<Rightarrow> nat \<Rightarrow> (exn + answer list) \<times> nat"
where
  "answer_loop L ndf [] answers figs = (Inr answers, figs)"
| "answer_loop L ndf (q # qs) answers figs =
     (case answer_one L ndf q figs of
        (Inl e, figs) \<Rightarrow> (Inl e, figs)
      | (Inr a, figs) \<Rightarrow> answer_loop L ndf qs (answers @ [a]) figs)"

definition answer_questions ::
  "pylib \<Rightarrow> string \<Rightarrow> dataframe option \<Rightarrow> nat \<Rightarrow> (exn + answer list) \<times> nat"
where
  "answer_questions L question_str df figs =
     (let questions = segment_questions question_str;
          answers = [];
          ndf = normalize_df L df
      in answer_loop L ndf questions answers figs)"

subsection \<open>The rule table of the specification\<close>

datatype handler = CountBeforeYear | EarliestAboveThreshold | Correlation | PlotRenderer | Sentinel

definition rules :: "(string list \<times> handler) list" where
  "rules =
     [([''how many'', ''$2 bn'', ''before 2000''], CountBeforeYear),
      ([''earliest film'', ''1.5 bn''], EarliestAboveThreshold),
      ([''correlation'', ''rank'', ''peak''], Correlation),
      ([''scatterplot'', ''rank'', ''peak''], PlotRenderer)]"

definition rule_matches :: "string \<Rightarrow> string list \<times> handler \<Rightarrow> bool" where
  "rule_matches q r = list_all (contains (lower q)) (fst r)"

definition dispatch :: "string \<Rightarrow> handler" where
  \<comment> \<open>the first rule, in the order of the table, all of whose substrings occur\<close>
  "dispatch q = (case find (rule_matches q) rules of Some r \<Rightarrow> snd r | None \<Rightarrow> Sentinel)"

definition run_handler ::
  "handler \<Rightarrow> pylib \<Rightarrow> dataframe option \<Rightarrow> nat \<Rightarrow> (exn + answer) \<times> nat"
where
  "run_handler h L ndf figs =
     (case h of
        CountBeforeYear \<Rightarrow> (count_before_year ndf, figs)
      | EarliestAboveThreshold \<Rightarrow> (earliest_above L ndf, figs)
      | Correlation \<Rightarrow> (correlation L ndf, figs)
      | PlotRenderer \<Rightarrow> scatterplot L ndf figs
      | Sentinel \<Rightarrow> (Inr (AStr ''Question not recognized or data missing''), figs))"

section \<open>A library instance for evaluation\<close>

text \<open>
  The theorems hold for every library. To run the model on concrete tables, this
  instance computes the least-squares fit and the Pearson coefficient (to twelve
  decimals) by their textbook formulas, with the two input checks of \<open>scipy.stats.linregress\<close> (empty
  input, and all \<open>x\<close> values identical), reads plain decimal text as a number, prints
  an integer-valued float with one decimal, and draws every figure as the same short
  payload.
\<close>

definition mean :: "real list \<Rightarrow> real" where
  "mean xs = sum_list xs / of_nat (length xs)"

definition sxy :: "real list \<Rightarrow> real list \<Rightarrow> real" where
  "sxy xs ys = sum_list (map (\<lambda>(x, y). (x - mean xs) * (y - mean ys)) (zip xs ys))"

definition sample_linregress :: "real list \<Rightarrow> real list \<Rightarrow> exn + (pyfloat \<times> pyfloat)" where
  "sample_linregress xs ys =
     (if xs = [] \<or> ys = [] then Inl ValueError
      else if list_max xs = list_min xs \<and> length xs > 1 then Inl ValueError
      else if sxy xs xs = 0 then Inr (None, None)
      else let slope = sxy xs ys / sxy xs xs
           in Inr (Some slope, Some (mean ys - slope * mean xs)))"

function isqrt :: "nat \<Rightarrow> nat" where
  \<comment> \<open>the integer square root, rounded down\<close>
  "isqrt n =
     (if n < 2 then n
      else let s = 2 * isqrt (n div 4) in if (s + 1) * (s + 1) \<le> n then s + 1 else s)"
  by pat_completeness auto
termination
  by (relation "measure id") auto

definition sample_corr :: "real list \<Rightarrow> real list \<Rightarrow> pyfloat" where
  \<comment> \<open>\<open>sxy / sqrt (sxx * syy)\<close>, to twelve decimals\<close>
  "sample_corr xs ys =
     (if sxy xs xs = 0 \<or> sxy ys ys = 0 then None
      else let r2 = (sxy xs ys) ^ 2 / (sxy xs xs * sxy ys ys);
               m = isqrt (nat \<lfloor>r2 * 10 ^ 24\<rfloor>)
           in Some (sgn (sxy xs ys) * of_nat m / 10 ^ 12))"

definition sample_lib :: pylib where
  "sample_lib =
     \<lparr>repr_float = (\<lambda>r. str_int \<lfloor>r\<rfloor> @ ''.0''),
      to_numeric_str = (\<lambda>s. py_float (strip s)),
      corr = sample_corr,
      linregress = sample_linregress,
      savefig_b64 = (\<lambda>fig. ''iVBORw0KGgo='')\<rparr>"

section \<open>Canonical tables and the wording of the specification\<close>

definition numeric_col :: "cell list \<Rightarrow> bool" where
  "numeric_col cs = list_all (\<lambda>c. case c of Txt s \<Rightarrow> False | _ \<Rightarrow> True) cs"

fun num_of :: "cell \<Rightarrow> pyfloat" where
  \<comment> \<open>the value of a numeric cell, \<open>None\<close> when it is missing\<close>
  "num_of (Intg i) = Some (of_int i)"
| "num_of (Flt r) = Some r"
| "num_of c = None"

definition canonical :: "dataframe \<Rightarrow> bool" where
  \<comment> \<open>the tables the answerers are written for: distinct labels, columns as long as the
      index, at least one row and one column, and numbers or missing values in the
      numeric columns that are present\<close>
  "canonical d =
     (distinct (columns d) \<and> list_all (\<lambda>(k, v). length v = nrows d) (cols d) \<and> \<not> df_empty d
      \<and> list_all (\<lambda>c. c \<notin> set (columns d) \<or> numeric_col (getitem d c))
           [''GrossNum'', ''Year'', ''Rank'', ''Peak''])"

definition qualifying_rows :: "dataframe \<Rightarrow> (real \<times> cell) list" where
  \<comment> \<open>year and title of the rows with \<open>GrossNum > 1.5\<close> and a year, in row order\<close>
  "qualifying_rows d =
     [(y, t). (g, yc, t) \<leftarrow> zip (getitem d ''GrossNum'') (zip (getitem d ''Year'') (getitem d ''Title'')),
              y \<leftarrow> (case num_of yc of None \<Rightarrow> [] | Some y \<Rightarrow> [y]),
              (case num_of g of None \<Rightarrow> False | Some x \<Rightarrow> x > 3 / 2)]"

definition first_minimal :: "(real \<times> cell) list \<Rightarrow> real \<times> cell" where
  \<comment> \<open>the first row, in the given order, among those with the least year\<close>
  "first_minimal rows = hd (filter (\<lambda>r. fst r = Min (fst ` set rows)) rows)"

definition complete_pairs :: "dataframe \<Rightarrow> (real \<times> real) list" where
  \<comment> \<open>the (Rank, Peak) pairs of the rows in which both values are present\<close>
  "complete_pairs d =
     [(r, p). (rc, pc) \<leftarrow> zip (getitem d ''Rank'') (getitem d ''Peak''),
              r \<leftarrow> (case num_of rc of None \<Rightarrow> [] | Some r \<Rightarrow> [r]),
              p \<leftarrow> (case num_of pc of None \<Rightarrow> [] | Some p \<Rightarrow> [p])]"

definition text_col :: "cell list \<Rightarrow> bool" where
  \<comment> \<open>a column of texts, as the specification types \<open>Title\<close>\<close>
  "text_col cs = list_all (\<lambda>c. case c of Txt s \<Rightarrow> True | _ \<Rightarrow> False) cs"

fun text_of :: "cell \<Rightarrow> string" where
  "text_of (Txt s) = s"
| "text_of c = []"

definition is_round6 :: "real \<Rightarrow> real \<Rightarrow> bool" where
  \<comment> \<open>the specification's wording: \<open>r\<close> is \<open>c\<close> rounded to 6 decimal places, which is a
      multiple of one millionth nearest to \<open>c\<close>, the even multiple when two are equally near\<close>
  "is_round6 c r =
     (\<exists>k :: int. r = of_int k / 10 ^ 6 \<and> \<bar>r - c\<bar> \<le> 5 / 10 ^ 7
                \<and> (\<bar>r - c\<bar> = 5 / 10 ^ 7 \<longrightarrow> even k))"







section \<open>Tables for evaluation\<close>

definition sample_films :: dataframe where
  "sample_films =
     \<lparr>nrows = 3,
      cols = [('' Title'', [Txt ''A'', Txt ''B'', Txt ''C'']),
              (''Worldwide gross'', [Txt ''$1,600,000,000'', Txt ''$2,000,000,000'', Txt ''US$ 2,500,000,000'']),
              (''Year'', [Txt ''2001'', Intg 1998, Txt ''1998'']),
              (''Rank'', [Intg 1, Intg 2, Intg 3]),
              (''Peak'', [Intg 1, Txt ''2'', Intg 3])]\<rparr>"

definition sample_canonical :: dataframe where
  \<comment> \<open>\<open>normalize_df sample_lib (Some sample_films)\<close>\<close>
  "sample_canonical =
     \<lparr>nrows = 3,
      cols = [(''Title'', [Txt ''A'', Txt ''B'', Txt ''C'']),
              (''Gross'', [Txt ''$1,600,000,000'', Txt ''$2,000,000,000'', Txt ''US$ 2,500,000,000'']),
              (''Year'', [Flt 2001, Intg 1998, Flt 1998]),
              (''Rank'', [Intg 1, Intg 2, Intg 3]),
              (''Peak'', [Intg 1, Flt 2, Intg 3]),
              (''GrossNum'', [Flt (8 / 5), Flt 2, Flt (5 / 2)])]\<rparr>"




definition sample_identical_rank :: dataframe where
  \<comment> \<open>two rows with the same \<open>Rank\<close>\<close>
  "sample_identical_rank =
     \<lparr>nrows = 2, cols = [(''Rank'', [Intg 1, Intg 1]), (''Peak'', [Intg 1, Intg 2])]\<rparr>"

definition sample_no_pairs :: dataframe where
  \<comment> \<open>no row has both a \<open>Rank\<close> and a \<open>Peak\<close>\<close>
  "sample_no_pairs =
     \<lparr>nrows = 2, cols = [(''Rank'', [Intg 1, NaN]), (''Peak'', [NaN, Intg 2])]\<rparr>"

definition sample_swapped :: dataframe where
  \<comment> \<open>six films whose first two peaks are exchanged: the coefficient is \<open>33 / 35\<close>\<close>
  "sample_swapped =
     \<lparr>nrows = 6,
      cols = [(''Rank'', [Intg 1, Intg 2, Intg 3, Intg 4, Intg 5, Intg 6]),
              (''Peak'', [Intg 2, Intg 1, Intg 3, Intg 4, Intg 5, Intg 6])]\<rparr>"

definition sample_numeric_title :: dataframe where
  \<comment> \<open>no text column: the title is a number\<close>
  "sample_numeric_title =
     \<lparr>nrows = 2,
      cols = [(''Title'', [Intg 8, Intg 9]),
              (''GrossNum'', [Flt 2, Flt (8 / 5)]),
              (''Year'', [Intg 1998, Intg 2001])]\<rparr>"

definition long_png_lib :: pylib where
  \<comment> \<open>as \<open>sample_lib\<close>, with a drawing whose payload is 100000 characters long\<close>
  "long_png_lib = sample_lib\<lparr>savefig_b64 := (\<lambda>fig. replicate 100000 CHR ''A'')\<rparr>"

section \<open>Properties of the question segmenter\<close>

lemma not_digit_dot: "\<not> is_digit CHR ''.''"
  by (simp add: is_digit_def)

lemma startswith_dot: "startswith r ''.'' \<longleftrightarrow> (\<exists>t. r = CHR ''.'' # t)"
  by (cases r) auto

lemma re_match_enum_iff: "re_match_enum line \<longleftrightarrow> is_enumerated line"
proof
  assume m: "re_match_enum line"
  let ?ds = "takeWhile is_digit line" and ?rest = "dropWhile is_digit line"
  from m have ne: "?ds \<noteq> []" and sw: "startswith ?rest ''.''"
    by (simp_all add: re_match_enum_def Let_def)
  from sw obtain t where t: "?rest = CHR ''.'' # t"
    by (auto simp: startswith_dot)
  have "line = ?ds @ ?rest" by simp
  with t have "line = ?ds @ ''.'' @ t" by simp
  moreover have "list_all is_digit ?ds"
    by (simp add: list_all_iff) (meson set_takeWhileD)
  ultimately show "is_enumerated line"
    unfolding is_enumerated_def using ne by blast
next
  assume "is_enumerated line"
  then obtain ds rest where ne: "ds \<noteq> []" and dg: "list_all is_digit ds"
    and l: "line = ds @ ''.'' @ rest"
    unfolding is_enumerated_def by blast
  from dg have all: "\<And>x. x \<in> set ds \<Longrightarrow> is_digit x"
    by (simp add: list_all_iff)
  have "takeWhile is_digit line = ds"
    using all by (simp add: l takeWhile_append2 not_digit_dot)
  moreover have "dropWhile is_digit line = CHR ''.'' # rest"
    using all by (simp add: l dropWhile_append2 not_digit_dot)
  ultimately show "re_match_enum line"
    using ne by (simp add: re_match_enum_def)
qed

lemma splitlines_chars: "l \<in> set (splitlines s) \<Longrightarrow> set l \<subseteq> set s"
proof (induction s arbitrary: l rule: splitlines.induct)
  case 1
  then show ?case by simp
next
  case (2 c cs)
  let ?s = "c # cs"
  let ?line = "takeWhile (\<lambda>x. \<not> is_linebreak x) ?s"
  let ?rest = "dropWhile (\<lambda>x. \<not> is_linebreak x) ?s"
  have tk: "set ?line \<subseteq> set ?s"
    by (meson set_takeWhileD subsetI)
  have dr: "set ?rest \<subseteq> set ?s"
    by (meson set_dropWhileD subsetI)
  show ?case
  proof (cases ?rest)
    case Nil
    with "2.prems" have "l = ?line"
      by (simp add: Let_def del: takeWhile.simps dropWhile.simps)
    with tk show ?thesis by simp
  next
    case (Cons b r)
    let ?next = "if b = CHR 0x0D \<and> startswith r [CHR 0x0A] then tl r else r"
    from "2.prems" Cons have "l = ?line \<or> l \<in> set (splitlines ?next)"
      by (simp add: Let_def del: takeWhile.simps dropWhile.simps)
    then show ?thesis
    proof
      assume "l = ?line"
      with tk show ?thesis by simp
    next
      assume "l \<in> set (splitlines ?next)"
      then have "set l \<subseteq> set ?next"
        using "2.IH"[OF refl refl refl Cons] by simp
      moreover have "set ?next \<subseteq> set r"
        by (cases r) auto
      moreover have "set r \<subseteq> set ?s"
        using dr Cons by auto
      ultimately show ?thesis by blast
    qed
  qed
qed

lemma strip_empty_iff: "strip s = [] \<longleftrightarrow> (\<forall>c \<in> set s. is_space c)"
proof
  assume "strip s = []"
  then have "dropWhile is_space (rev (dropWhile is_space s)) = []"
    by (simp add: strip_def)
  then have "\<forall>c \<in> set (dropWhile is_space s). is_space c"
    by simp
  then have "dropWhile is_space s = []"
    by (metis hd_dropWhile list.set_sel(1))
  then show "\<forall>c \<in> set s. is_space c"
    by simp
next
  assume "\<forall>c \<in> set s. is_space c"
  then have "dropWhile is_space s = []"
    by simp
  then show "strip s = []"
    by (simp add: strip_def del: dropWhile_eq_Nil_conv)
qed

lemma no_match_empty: "\<not> re_match_enum []"
  by (simp add: re_match_enum_def)

lemma blank_no_questions:
  assumes "strip s = []"
  shows "[strip line. line \<leftarrow> splitlines s, re_match_enum (strip line)] = []"
proof -
  have "strip l = []" if "l \<in> set (splitlines s)" for l
    using that assms splitlines_chars[of l s] by (auto simp: strip_empty_iff)
  then have "\<not> re_match_enum (strip l)" if "l \<in> set (splitlines s)" for l
    using that no_match_empty by simp
  then show ?thesis
    by (induction "splitlines s") auto
qed

lemma questions_filter:
  "[strip line. line \<leftarrow> ls, re_match_enum (strip line)] = filter re_match_enum (map strip ls)"
  by (induction ls) auto

lemma strip_ends:
  "strip s = [] \<or> (\<not> is_space (hd (strip s)) \<and> \<not> is_space (last (strip s)))"
proof (cases "strip s = []")
  case True
  then show ?thesis by simp
next
  case False
  define t where "t = dropWhile is_space s"
  define u where "u = dropWhile is_space (rev t)"
  have s: "strip s = rev u"
    by (simp add: strip_def t_def u_def)
  with False have u: "u \<noteq> []"
    by simp
  then have "\<not> is_space (hd u)"
    unfolding u_def by (rule hd_dropWhile)
  then have l: "\<not> is_space (last (strip s))"
    using u by (simp add: s last_rev)
  have "rev t = takeWhile is_space (rev t) @ u"
    by (simp add: u_def)
  then have "last (rev t) = last u"
    using u by (metis last_appendR)
  moreover from u have t: "t \<noteq> []"
    by (auto simp: u_def)
  ultimately have "hd t = last u"
    by (simp add: last_rev)
  moreover from t have "\<not> is_space (hd t)"
    unfolding t_def by (rule hd_dropWhile)
  ultimately have "\<not> is_space (hd (strip s))"
    using u by (simp add: s hd_rev)
  with l show ?thesis
    by simp
qed

lemma strip_is_trim: "is_trim s (strip s)"
proof -
  define a where "a = takeWhile is_space s"
  define t where "t = dropWhile is_space s"
  define w where "w = takeWhile is_space (rev t)"
  define u where "u = dropWhile is_space (rev t)"
  have "rev t = w @ u"
    by (simp add: w_def u_def)
  then have "t = rev u @ rev w"
    by (metis rev_append rev_rev_ident)
  moreover have "s = a @ t"
    by (simp add: a_def t_def)
  moreover have "strip s = rev u"
    by (simp add: strip_def t_def u_def)
  ultimately have "s = a @ strip s @ rev w"
    by simp
  moreover have "list_all is_space a"
    unfolding a_def list_all_iff by (meson set_takeWhileD)
  moreover have "list_all is_space (rev w)"
    unfolding w_def list_all_iff by (metis set_rev set_takeWhileD)
  ultimately show ?thesis
    unfolding is_trim_def using strip_ends [of s] by blast
qed

lemma lines_of_splitlines: "lines_of s (splitlines s)"
proof (induction s rule: splitlines.induct)
  case 1
  show ?case
    by (simp add: no_line)
next
  case (2 c cs)
  let ?s = "c # cs"
  let ?line = "takeWhile (\<lambda>x. \<not> is_linebreak x) ?s"
  let ?rest = "dropWhile (\<lambda>x. \<not> is_linebreak x) ?s"
  have nl: "\<not> list_ex is_linebreak ?line"
    unfolding list_ex_iff using set_takeWhileD [of _ "\<lambda>x. \<not> is_linebreak x" ?s] by blast
  have s: "?s = ?line @ ?rest"
    by (simp del: takeWhile.simps dropWhile.simps)
  show ?case
  proof (cases ?rest)
    case Nil
    then have "splitlines ?s = [?line]"
      by (simp only: splitlines.simps Let_def list.case)
    moreover from Nil s have l: "?line = ?s"
      by (simp only: append_Nil2)
    moreover from l have "?line \<noteq> []"
      by (metis list.distinct(1))
    then have "lines_of ?line [?line]"
      using nl by (rule last_line)
    ultimately show ?thesis
      by simp
  next
    case (Cons b r)
    let ?next = "if b = CHR 0x0D \<and> startswith r [CHR 0x0A] then tl r else r"
    have sp: "splitlines ?s = ?line # splitlines ?next"
      using Cons by (simp add: Let_def del: takeWhile.simps dropWhile.simps)
    have ih: "lines_of ?next (splitlines ?next)"
      using "2.IH" [OF refl refl refl Cons] .
    have "?rest \<noteq> []"
      using Cons by simp
    then have "\<not> \<not> is_linebreak (hd ?rest)"
      by (rule hd_dropWhile)
    with Cons have b: "is_linebreak b"
      by simp
    show ?thesis
    proof (cases "b = CHR 0x0D \<and> startswith r [CHR 0x0A]")
      case True
      then obtain r' where r: "r = CHR 0x0A # r'"
        by (cases r) auto
      from ih True r have "lines_of r' (splitlines r')"
        by simp
      with nl have "lines_of (?line @ CHR 0x0D # CHR 0x0A # r') (?line # splitlines r')"
        by (rule crlf_line)
      moreover from s Cons True r have "?s = ?line @ CHR 0x0D # CHR 0x0A # r'"
        by (simp del: takeWhile.simps dropWhile.simps)
      moreover from sp True r have "splitlines ?s = ?line # splitlines r'"
        by (simp del: takeWhile.simps dropWhile.simps splitlines.simps)
      ultimately show ?thesis
        by (simp del: takeWhile.simps dropWhile.simps splitlines.simps)
    next
      case False
      with ih have "lines_of r (splitlines r)"
        by simp
      with nl b False have "lines_of (?line @ b # r) (?line # splitlines r)"
        by (intro line)
      moreover from s Cons have "?s = ?line @ b # r"
        by (simp del: takeWhile.simps dropWhile.simps)
      moreover from sp False have "splitlines ?s = ?line # splitlines r"
        by (simp del: takeWhile.simps dropWhile.simps splitlines.simps)
      ultimately show ?thesis
        by (simp del: takeWhile.simps dropWhile.simps splitlines.simps)
    qed
  qed
qed

text \<open>
  Claim C6. The lines of the text are the ones the specification describes (\<open>lines_of\<close>)
  and trimming removes exactly the leading and trailing whitespace (\<open>is_trim\<close>). A
  trimmed line is an enumerated question exactly when it starts with digits followed by
  a dot (\<open>re_match_enum_iff\<close> relates the regular expression of the source to that
  wording). If at least one line matches, the segmenter returns exactly the matching
  lines, trimmed, in document order; if none matches and the text is not blank, it
  returns the trimmed text as the single question; if the text is empty or only
  whitespace, it returns no question.
\<close>

theorem segment_questions_spec:
  "lines_of s (splitlines s)
   \<and> is_trim x (strip x)
   \<and> segment_questions s =
     (let ms = filter is_enumerated (map strip (splitlines s))
      in if ms \<noteq> [] then ms else if strip s \<noteq> [] then [strip s] else [])
   \<and> (list_all is_space s \<longrightarrow> segment_questions s = [])"
proof -
  have eq: "filter is_enumerated (map strip (splitlines s))
          = [strip line. line \<leftarrow> splitlines s, re_match_enum (strip line)]"
    unfolding questions_filter by (rule filter_cong) (simp_all add: re_match_enum_iff)
  have a: "segment_questions s =
     (let ms = filter is_enumerated (map strip (splitlines s))
      in if ms \<noteq> [] then ms else if strip s \<noteq> [] then [strip s] else [])"
    by (auto simp: segment_questions_def Let_def eq)
  have b: "segment_questions s = []" if "list_all is_space s"
  proof -
    from that have "strip s = []"
      by (simp add: strip_empty_iff list_all_iff)
    then show ?thesis
      using blank_no_questions [of s] by (simp add: segment_questions_def)
  qed
  from a b lines_of_splitlines strip_is_trim show ?thesis
    by blast
qed

theorem segment_questions_spec_witness:
  "segment_questions ('' 1. A  '' @ [CHR 0x0A] @ '' note'' @ [CHR 0x0D, CHR 0x0A, CHR 0x09] @ ''2. B '')
     = [''1. A'', ''2. B'']
   \<and> segment_questions (''  just text'' @ [CHR 0x0A]) = [''just text'']
   \<and> list_all is_space [CHR 0x20, CHR 0x0A, CHR 0x09, CHR 0xA0]
   \<and> segment_questions [CHR 0x20, CHR 0x0A, CHR 0x09, CHR 0xA0] = []
   \<and> segment_questions ([CHR 0xA0] @ ''1. A'' @ [CHR 0x0A] @ ''plain'') = [''1. A'']
   \<and> segment_questions (''1. A'' @ [CHR 0x85] @ ''2. B'') = [''1. A'', ''2. B'']
   \<and> segment_questions [] = []"
proof -
  note ev = re_match_enum_iff [symmetric] re_match_enum_def strip_def is_space_def is_digit_def
    is_linebreak_def Let_def
  note spec = conjunct1 [OF conjunct2 [OF conjunct2 [OF segment_questions_spec]]]
  note blank = conjunct2 [OF conjunct2 [OF conjunct2 [OF segment_questions_spec]]]
  have a: "segment_questions ('' 1. A  '' @ [CHR 0x0A] @ '' note'' @ [CHR 0x0D, CHR 0x0A, CHR 0x09] @ ''2. B '')
     = [''1. A'', ''2. B'']"
    by (subst spec) (simp add: ev)
  have b: "segment_questions (''  just text'' @ [CHR 0x0A]) = [''just text'']"
    by (subst spec) (simp add: ev)
  have w: "list_all is_space [CHR 0x20, CHR 0x0A, CHR 0x09, CHR 0xA0]"
    by (simp add: is_space_def)
  from blank [of "[CHR 0x20, CHR 0x0A, CHR 0x09, CHR 0xA0]"] w
  have c: "segment_questions [CHR 0x20, CHR 0x0A, CHR 0x09, CHR 0xA0] = []"
    by blast
  have d: "segment_questions ([CHR 0xA0] @ ''1. A'' @ [CHR 0x0A] @ ''plain'') = [''1. A'']"
    by (subst spec) (simp add: ev)
  have e: "segment_questions (''1. A'' @ [CHR 0x85] @ ''2. B'') = [''1. A'', ''2. B'']"
    by (subst spec) (simp add: ev)
  have f: "segment_questions [] = []"
    by (subst spec) (simp add: ev)
  from a b w c d e f show ?thesis
    by simp
qed

section \<open>Properties of the dispatcher\<close>

lemma dispatch_cases:
  "dispatch q =
     (let q_lower = lower q
      in if contains q_lower ''how many'' \<and> contains q_lower ''$2 bn''
            \<and> contains q_lower ''before 2000''
         then CountBeforeYear
         else if contains q_lower ''earliest film'' \<and> contains q_lower ''1.5 bn''
         then EarliestAboveThreshold
         else if contains q_lower ''correlation'' \<and> contains q_lower ''rank''
                 \<and> contains q_lower ''peak''
         then Correlation
         else if contains q_lower ''scatterplot'' \<and> contains q_lower ''rank''
                 \<and> contains q_lower ''peak''
         then PlotRenderer
         else Sentinel)"
  by (simp add: dispatch_def rules_def rule_matches_def Let_def)

lemma answer_one_dispatch: "answer_one L ndf q figs = run_handler (dispatch q) L ndf figs"
  by (simp add: answer_one_def dispatch_cases run_handler_def Let_def)

text \<open>
  Claim C2, as amended. The if/elif chain of the source is the first-match evaluation of
  the ordered rule table (Count-Before-Year, Earliest-Above-Threshold, Correlation, Plot,
  sentinel) under case-insensitive substring matching. A question that contains
  "correlation", "rank" and "peak" never reaches the Plot Renderer, and a question that
  contains all of "correlation", "rank", "peak" and "scatterplot" resolves to the
  Correlation answerer unless one of the two rules of higher priority matches it too.
\<close>

theorem dispatch_priority:
  "answer_one L ndf q figs = run_handler (dispatch q) L ndf figs
   \<and> (contains (lower q) ''correlation'' \<and> contains (lower q) ''rank''
        \<and> contains (lower q) ''peak''
      \<longrightarrow> dispatch q \<noteq> PlotRenderer
          \<and> (dispatch q \<noteq> CountBeforeYear \<and> dispatch q \<noteq> EarliestAboveThreshold
              \<longrightarrow> dispatch q = Correlation
                  \<and> answer_one L ndf q figs = (correlation L ndf, figs)))"
  by (simp add: answer_one_dispatch) (simp add: dispatch_cases run_handler_def Let_def)

theorem dispatch_priority_witness:
  "contains (lower ''Correlation of Rank and Peak, with a scatterplot'') ''correlation''
   \<and> contains (lower ''Correlation of Rank and Peak, with a scatterplot'') ''rank''
   \<and> contains (lower ''Correlation of Rank and Peak, with a scatterplot'') ''peak''
   \<and> contains (lower ''Correlation of Rank and Peak, with a scatterplot'') ''scatterplot''
   \<and> dispatch ''Correlation of Rank and Peak, with a scatterplot'' = Correlation
   \<and> answer_one sample_lib None ''Correlation of Rank and Peak, with a scatterplot'' 0
       = (Inr (AFloat 0), 0)"
proof -
  let ?q = "''Correlation of Rank and Peak, with a scatterplot''"
  have l: "lower ?q = ''correlation of rank and peak, with a scatterplot''"
    by (simp add: lower_def lower_char_def upper_letters_def lower_letters_def)
  have k: "contains (lower ?q) ''correlation''" "contains (lower ?q) ''rank''"
    "contains (lower ?q) ''peak''" "contains (lower ?q) ''scatterplot''"
    unfolding l by simp_all
  have n: "\<not> contains (lower ?q) ''how many''" "\<not> contains (lower ?q) ''earliest film''"
    unfolding l by simp_all
  have d: "dispatch ?q \<noteq> CountBeforeYear \<and> dispatch ?q \<noteq> EarliestAboveThreshold"
    using k n by (simp add: dispatch_cases Let_def)
  from dispatch_priority [of sample_lib None ?q 0] k d
  have "dispatch ?q = Correlation"
    and "answer_one sample_lib None ?q 0 = (correlation sample_lib None, 0)"
    by blast+
  then show ?thesis
    using k by (simp add: correlation_def)
qed

theorem dispatch_correlation_counterexample:
  "contains (lower ''How many $2 bn films before 2000? Correlation, scatterplot, Rank, Peak'')
     ''correlation''
   \<and> contains (lower ''How many $2 bn films before 2000? Correlation, scatterplot, Rank, Peak'')
     ''rank''
   \<and> contains (lower ''How many $2 bn films before 2000? Correlation, scatterplot, Rank, Peak'')
     ''peak''
   \<and> contains (lower ''How many $2 bn films before 2000? Correlation, scatterplot, Rank, Peak'')
     ''scatterplot''
   \<and> answer_one sample_lib None
       ''How many $2 bn films before 2000? Correlation, scatterplot, Rank, Peak'' 0
       = (Inr (AInt 0), 0)
   \<and> answer_one sample_lib None
       ''How many $2 bn films before 2000? Correlation, scatterplot, Rank, Peak'' 0
       \<noteq> (correlation sample_lib None, 0)"
proof -
  let ?q = "''How many $2 bn films before 2000? Correlation, scatterplot, Rank, Peak''"
  have l: "lower ?q = ''how many $2 bn films before 2000? correlation, scatterplot, rank, peak''"
    by (simp add: lower_def lower_char_def upper_letters_def lower_letters_def)
  have k: "contains (lower ?q) ''correlation''" "contains (lower ?q) ''rank''"
    "contains (lower ?q) ''peak''" "contains (lower ?q) ''scatterplot''"
    "contains (lower ?q) ''how many''" "contains (lower ?q) ''$2 bn''"
    "contains (lower ?q) ''before 2000''"
    unfolding l by simp_all
  have a: "answer_one sample_lib None ?q 0 = (Inr (AInt 0), 0)"
    using k by (simp add: answer_one_def Let_def count_before_year_def)
  have c: "correlation sample_lib None = Inr (AFloat 0)"
    by (simp add: correlation_def)
  show ?thesis
    using k a c by simp
qed

section \<open>Properties of the answerers\<close>

lemma col_nums_numeric: "numeric_col cs \<Longrightarrow> col_nums cs = Inr (map num_of cs)"
proof (induction cs)
  case Nil
  then show ?case by simp
next
  case (Cons c cs)
  then show ?case
    by (cases c) (simp_all add: numeric_col_def)
qed

lemma canonical_numeric:
  assumes "canonical d" and "c \<in> set [''GrossNum'', ''Year'', ''Rank'', ''Peak'']"
    and "c \<in> set (columns d)"
  shows "col_nums (getitem d c) = Inr (map num_of (getitem d c))"
proof -
  from assms have "numeric_col (getitem d c)"
    unfolding canonical_def list_all_iff by blast
  then show ?thesis
    by (rule col_nums_numeric)
qed

lemma dropna2_pairs:
  "dropna2 (map num_of rs) (map num_of ps) =
     [(r, p). (rc, pc) \<leftarrow> zip rs ps,
              r \<leftarrow> (case num_of rc of None \<Rightarrow> [] | Some r \<Rightarrow> [r]),
              p \<leftarrow> (case num_of pc of None \<Rightarrow> [] | Some p \<Rightarrow> [p])]"
proof -
  have "[(r, p). (Some r, Some p) \<leftarrow> map (\<lambda>(x, y). (num_of x, num_of y)) zs] =
        [(r, p). (rc, pc) \<leftarrow> zs,
                 r \<leftarrow> (case num_of rc of None \<Rightarrow> [] | Some r \<Rightarrow> [r]),
                 p \<leftarrow> (case num_of pc of None \<Rightarrow> [] | Some p \<Rightarrow> [p])]" for zs
    by (induction zs) (auto split: option.splits)
  then show ?thesis
    by (simp add: dropna2_def zip_map_map)
qed

lemma filtered_rows:
  "[(y, t). (g, Some y, t) \<leftarrow>
       filter (\<lambda>(g, y, t). f_gt g (3 / 2)) (zip (map num_of gs) (zip (map num_of ys) ts))] =
   [(y, t). (g, yc, t) \<leftarrow> zip gs (zip ys ts),
            y \<leftarrow> (case num_of yc of None \<Rightarrow> [] | Some y \<Rightarrow> [y]),
            (case num_of g of None \<Rightarrow> False | Some x \<Rightarrow> x > 3 / 2)]"
proof (induction gs arbitrary: ys ts)
  case Nil
  then show ?case by simp
next
  case (Cons g gs)
  show ?case
  proof (cases ys)
    case Nil
    then show ?thesis by simp
  next
    case ys: (Cons y ys')
    show ?thesis
    proof (cases ts)
      case Nil
      then show ?thesis by (simp add: ys)
    next
      case (Cons t ts')
      then show ?thesis
        using Cons.IH [of ys' ts']
        by (auto simp: ys f_gt_def split: option.splits)
    qed
  qed
qed

lemma hd_filter_hd: "xs \<noteq> [] \<Longrightarrow> P (hd xs) \<Longrightarrow> hd (filter P xs) = hd xs"
  by (cases xs) auto

lemma hd_sort_key_first_minimal:
  fixes f :: "'a \<Rightarrow> real"
  assumes "xs \<noteq> []"
  shows "hd (sort_key f xs) = hd (filter (\<lambda>x. f x = Min (f ` set xs)) xs)"
proof -
  let ?s = "sort_key f xs" and ?m = "Min (f ` set xs)"
  from assms have ne: "?s \<noteq> []"
    by (metis length_0_conv length_sort)
  have srt: "sorted (map f ?s)"
    by (rule sorted_sort_key)
  have "f (hd ?s) \<le> f x" if "x \<in> set xs" for x
  proof -
    from that have "x \<in> set ?s" by simp
    with ne srt show ?thesis
      by (cases ?s) auto
  qed
  moreover have "hd ?s \<in> set xs"
    using ne by (metis list.set_sel(1) set_sort)
  ultimately have "f (hd ?s) = ?m"
    using assms by (intro Min_eqI [symmetric]) auto
  then have "hd (filter (\<lambda>x. f x = ?m) ?s) = hd ?s"
    using ne by (intro hd_filter_hd) auto
  then show ?thesis
    by (simp add: sort_key_stable)
qed

lemmas string_eval = strip_def is_space_def is_digit_def is_linebreak_def lower_def lower_char_def
  upper_letters_def lower_letters_def

lemmas table_eval = columns_def has_columns_def getitem_def df_empty_def canonical_def
  numeric_col_def

lemma round6_zero: "round6 0 = 0"
  by (simp add: round6_def round_half_even_def)

lemma round6_one: "round6 1 = 1"
  by (simp add: round6_def round_half_even_def)

lemma astype_text: "astype t (Txt s) = Txt s"
  by (cases t) simp_all

lemma row_item_text: "row_item d c (Txt s) = Txt s"
  by (simp add: row_item_def astype_text)

lemma qualifying_rows_title:
  assumes "r \<in> set (qualifying_rows d)"
  shows "snd r \<in> set (getitem d ''Title'')"
  using assms unfolding qualifying_rows_def
  by (auto split: option.splits dest!: set_zip_rightD)

lemma text_col_str:
  assumes "text_col cs" and "c \<in> set cs"
  shows "py_str L (row_item d k c) = text_of c"
proof -
  from assms obtain s where "c = Txt s"
    unfolding text_col_def list_all_iff by (cases c) auto
  then show ?thesis
    by (simp add: row_item_text py_str_def)
qed

lemma earliest_above_canonical:
  assumes c: "canonical d" and h: "has_columns d [''GrossNum'', ''Year'']"
    "''Title'' \<in> set (columns d)"
  shows "earliest_above L (Some d) =
           (if qualifying_rows d = [] then Inr (AStr [])
            else Inr (AStr (py_str L (row_item d ''Title''
                                        (snd (hd (sort_key fst (qualifying_rows d))))))))"
proof -
  from h have g: "col_nums (getitem d ''GrossNum'') = Inr (map num_of (getitem d ''GrossNum''))"
    and y: "col_nums (getitem d ''Year'') = Inr (map num_of (getitem d ''Year''))"
    using c by (auto simp: has_columns_def intro: canonical_numeric)
  define Q where "Q = [(y, t). (g, Some y, t) \<leftarrow>
      filter (\<lambda>(g, y, t). f_gt g (3 / 2))
        (zip (map num_of (getitem d ''GrossNum''))
          (zip (map num_of (getitem d ''Year'')) (getitem d ''Title'')))]"
  have q: "qualifying_rows d = Q"
    unfolding Q_def qualifying_rows_def by (rule filtered_rows [symmetric])
  have "earliest_above L (Some d) =
          (if Q = [] then Inr (AStr [])
           else Inr (AStr (py_str L (row_item d ''Title'' (snd (hd (sort_key fst Q)))))))"
    unfolding Q_def
    by (simp only: earliest_above_def option.case h not_True_eq_False simp_thms if_False
        g y sum.case Let_def)
  then show ?thesis
    by (simp only: q)
qed

text \<open>
  Claim C5. On a canonical table with \<open>GrossNum\<close>, \<open>Year\<close> and \<open>Title\<close>, where \<open>Title\<close> is a
  column of texts, the Earliest-Above-Threshold answerer keeps the rows with
  \<open>GrossNum > 1.5\<close> (strictly) and a year, sorts them by year with a stable sort, and
  returns the title of the first row, which is the text of that cell, or the empty
  string if no row remains; if a required column is absent, or there is no table, it
  returns the empty string. The first row of the stable sort is the first row, in the
  original row order, among those with the least year.
\<close>

theorem earliest_above_spec:
  "earliest_above L None = Inr (AStr [])
   \<and> (canonical d \<and> text_col (getitem d ''Title'') \<longrightarrow>
        earliest_above L (Some d) =
          Inr (AStr (if \<not> has_columns d [''GrossNum'', ''Year''] \<or> ''Title'' \<notin> set (columns d)
                     then []
                     else if qualifying_rows d = [] then []
                     else text_of (snd (hd (sort_key fst (qualifying_rows d)))))))
   \<and> (qualifying_rows d \<noteq> [] \<longrightarrow>
        hd (sort_key fst (qualifying_rows d)) = first_minimal (qualifying_rows d))"
proof (intro conjI impI)
  show "earliest_above L None = Inr (AStr [])"
    by (simp add: earliest_above_def)
next
  assume ct: "canonical d \<and> text_col (getitem d ''Title'')"
  then have c: "canonical d" and t: "text_col (getitem d ''Title'')"
    by simp_all
  show "earliest_above L (Some d) =
          Inr (AStr (if \<not> has_columns d [''GrossNum'', ''Year''] \<or> ''Title'' \<notin> set (columns d)
                     then []
                     else if qualifying_rows d = [] then []
                     else text_of (snd (hd (sort_key fst (qualifying_rows d))))))"
  proof (cases "\<not> has_columns d [''GrossNum'', ''Year''] \<or> ''Title'' \<notin> set (columns d)")
    case True
    then show ?thesis
      by (auto simp: earliest_above_def)
  next
    case False
    then have h: "has_columns d [''GrossNum'', ''Year'']" "''Title'' \<in> set (columns d)"
      by auto
    let ?Q = "qualifying_rows d"
    have "py_str L (row_item d ''Title'' (snd (hd (sort_key fst ?Q))))
            = text_of (snd (hd (sort_key fst ?Q)))" if "?Q \<noteq> []"
    proof -
      from that have "sort_key fst ?Q \<noteq> []"
        by (metis length_0_conv length_sort)
      then have "hd (sort_key fst ?Q) \<in> set ?Q"
        by (metis list.set_sel(1) set_sort)
      then have "snd (hd (sort_key fst ?Q)) \<in> set (getitem d ''Title'')"
        by (rule qualifying_rows_title)
      with t show ?thesis
        by (rule text_col_str)
    qed
    with False show ?thesis
      by (simp add: earliest_above_canonical [OF c h])
  qed
next
  assume "qualifying_rows d \<noteq> []"
  then show "hd (sort_key fst (qualifying_rows d)) = first_minimal (qualifying_rows d)"
    unfolding first_minimal_def by (rule hd_sort_key_first_minimal)
qed

theorem earliest_above_spec_witness:
  "canonical sample_canonical
   \<and> text_col (getitem sample_canonical ''Title'')
   \<and> qualifying_rows sample_canonical = [(2001, Txt ''A''), (1998, Txt ''B''), (1998, Txt ''C'')]
   \<and> earliest_above sample_lib (Some sample_canonical) = Inr (AStr ''B'')
   \<and> first_minimal (qualifying_rows sample_canonical) = (1998, Txt ''B'')"
proof -
  have c: "canonical sample_canonical"
    by (simp add: sample_canonical_def table_eval)
  have t: "text_col (getitem sample_canonical ''Title'')"
    by (simp add: sample_canonical_def getitem_def text_col_def)
  have h: "has_columns sample_canonical [''GrossNum'', ''Year'']"
    "''Title'' \<in> set (columns sample_canonical)"
    by (simp_all add: sample_canonical_def table_eval)
  have q: "qualifying_rows sample_canonical =
             [(2001, Txt ''A''), (1998, Txt ''B''), (1998, Txt ''C'')]"
    by (simp add: qualifying_rows_def sample_canonical_def getitem_def)
  have s: "hd (sort_key fst [(2001 :: real, Txt ''A''), (1998, Txt ''B''), (1998, Txt ''C'')])
             = (1998, Txt ''B'')"
    by simp
  from earliest_above_spec [of sample_lib sample_canonical] c t h q s
  have "earliest_above sample_lib (Some sample_canonical) = Inr (AStr ''B'')"
    and "first_minimal (qualifying_rows sample_canonical) = (1998, Txt ''B'')"
    by simp_all
  with c t q show ?thesis
    by simp
qed

lemma earliest_above_numeric_title:
  "earliest_above sample_lib (Some sample_numeric_title) = Inr (AStr ''8.0'')"
proof -
  have c: "canonical sample_numeric_title"
    by (simp add: sample_numeric_title_def table_eval)
  have h: "has_columns sample_numeric_title [''GrossNum'', ''Year'']"
    "''Title'' \<in> set (columns sample_numeric_title)"
    by (simp_all add: sample_numeric_title_def table_eval)
  have q: "qualifying_rows sample_numeric_title = [(1998, Intg 8), (2001, Intg 9)]"
    by (simp add: qualifying_rows_def sample_numeric_title_def getitem_def)
  have r: "row_item sample_numeric_title ''Title'' (Intg 8) = Flt 8"
    by (simp add: row_item_def sample_numeric_title_def getitem_def dtype_of_def
        common_dtype_def)
  have s: "py_str sample_lib (Flt 8) = ''8.0''"
    by (simp add: py_str_def sample_lib_def str_int_def digit_char_def)
  show ?thesis
    by (simp add: earliest_above_canonical [OF c h] q r s)
qed

lemma round_half_even_near:
  "\<bar>of_int (round_half_even y) - y\<bar> \<le> 1 / 2
   \<and> (\<bar>of_int (round_half_even y) - y\<bar> = 1 / 2 \<longrightarrow> even (round_half_even y))"
proof -
  define f where "f = \<lfloor>y\<rfloor>"
  define d where "d = y - of_int f"
  have d: "0 \<le> d" "d < 1"
    unfolding d_def f_def by linarith+
  have y: "y = of_int f + d"
    by (simp add: d_def)
  have r: "round_half_even y =
             (if d < 1 / 2 then f else if d > 1 / 2 then f + 1 else if even f then f else f + 1)"
    by (simp add: round_half_even_def Let_def f_def d_def)
  consider "d < 1 / 2" | "d > 1 / 2" | "d = 1 / 2" "even f" | "d = 1 / 2" "odd f"
    using less_linear [of d "1 / 2"] by blast
  then show ?thesis
  proof cases
    case 1
    with d show ?thesis unfolding r by (simp add: y abs_if)
  next
    case 2
    with d show ?thesis unfolding r by (simp add: y abs_if)
  next
    case 3
    then show ?thesis unfolding r by (simp add: y abs_if)
  next
    case 4
    then show ?thesis unfolding r by (simp add: y abs_if)
  qed
qed

lemma round6_is_round6: "is_round6 c (round6 c)"
proof -
  define k where "k = round_half_even (c * 1000000)"
  have e: "round6 c - c = (of_int k - c * 1000000) / 1000000"
    by (simp add: round6_def k_def field_simps)
  have a: "\<bar>round6 c - c\<bar> = \<bar>of_int k - c * 1000000\<bar> / 1000000"
    unfolding e by simp
  from round_half_even_near [of "c * 1000000"]
  have n: "\<bar>of_int k - c * 1000000\<bar> \<le> 1 / 2"
    and t: "\<bar>of_int k - c * 1000000\<bar> = 1 / 2 \<longrightarrow> even k"
    by (simp_all add: k_def)
  from n have "\<bar>round6 c - c\<bar> \<le> 5 / 10 ^ 7"
    unfolding a by simp
  moreover from t have "\<bar>round6 c - c\<bar> = 5 / 10 ^ 7 \<longrightarrow> even k"
    unfolding a by simp
  moreover have "round6 c = of_int k / 10 ^ 6"
    by (simp add: round6_def k_def)
  ultimately show ?thesis
    unfolding is_round6_def by blast
qed

text \<open>
  Claim C8. The Correlation answerer returns 0.0 when there is no table or the \<open>Rank\<close> or
  \<open>Peak\<close> column is absent; otherwise it drops the rows in which either value is missing
  and returns 0.0 if no row remains or the library's Pearson coefficient is undefined
  (\<open>nan\<close>), and otherwise the coefficient rounded to 6 decimal places: the multiple of one
  millionth nearest to it, the even multiple in a tie. On a canonical table it always
  returns an answer and never an exception.
\<close>

theorem correlation_spec:
  "correlation L None = Inr (AFloat 0)
   \<and> (canonical d \<longrightarrow>
        (\<exists>r. correlation L (Some d) = Inr (AFloat r)
           \<and> (if \<not> has_columns d [''Rank'', ''Peak''] \<or> complete_pairs d = [] then r = 0
               else (case corr L (map fst (complete_pairs d)) (map snd (complete_pairs d)) of
                       None \<Rightarrow> r = 0
                     | Some c \<Rightarrow> is_round6 c r))))"
proof (intro conjI impI)
  show "correlation L None = Inr (AFloat 0)"
    by (simp add: correlation_def)
next
  assume c: "canonical d"
  show "\<exists>r. correlation L (Some d) = Inr (AFloat r)
           \<and> (if \<not> has_columns d [''Rank'', ''Peak''] \<or> complete_pairs d = [] then r = 0
               else (case corr L (map fst (complete_pairs d)) (map snd (complete_pairs d)) of
                       None \<Rightarrow> r = 0
                     | Some c \<Rightarrow> is_round6 c r))"
  proof (cases "has_columns d [''Rank'', ''Peak'']")
    case False
    then show ?thesis
      by (simp add: correlation_def)
  next
    case True
    then have r: "col_nums (getitem d ''Rank'') = Inr (map num_of (getitem d ''Rank''))"
      and p: "col_nums (getitem d ''Peak'') = Inr (map num_of (getitem d ''Peak''))"
      using c by (auto simp: has_columns_def intro: canonical_numeric)
    have q: "dropna2 (map num_of (getitem d ''Rank'')) (map num_of (getitem d ''Peak''))
               = complete_pairs d"
      unfolding complete_pairs_def by (rule dropna2_pairs)
    have "correlation L (Some d) =
            (let sub = complete_pairs d
             in if sub = [] then Inr (AFloat 0)
                else let c = corr L (map fst sub) (map snd sub)
                     in Inr (AFloat (round6 (case c of None \<Rightarrow> 0 | Some v \<Rightarrow> v))))"
      by (simp only: correlation_def option.case True not_True_eq_False if_False r p sum.case q)
    with True show ?thesis
      by (simp add: Let_def round6_zero round6_is_round6 split: option.splits)
  qed
qed

theorem correlation_spec_witness:
  "canonical sample_swapped
   \<and> complete_pairs sample_swapped = [(1, 2), (2, 1), (3, 3), (4, 4), (5, 5), (6, 6)]
   \<and> corr sample_lib [1, 2, 3, 4, 5, 6] [2, 1, 3, 4, 5, 6] = Some (942857142857 / 10 ^ 12)
   \<and> correlation sample_lib (Some sample_swapped) = Inr (AFloat (942857 / 10 ^ 6))
   \<and> correlation sample_lib (Some sample_canonical) = Inr (AFloat 1)
   \<and> correlation sample_lib (Some sample_no_pairs) = Inr (AFloat 0)"
proof -
  have c: "canonical sample_swapped" "canonical sample_canonical" "canonical sample_no_pairs"
    by (simp_all add: sample_swapped_def sample_canonical_def sample_no_pairs_def table_eval)
  have h: "has_columns sample_swapped [''Rank'', ''Peak'']"
    "has_columns sample_canonical [''Rank'', ''Peak'']"
    "has_columns sample_no_pairs [''Rank'', ''Peak'']"
    by (simp_all add: sample_swapped_def sample_canonical_def sample_no_pairs_def table_eval)
  have q: "complete_pairs sample_swapped = [(1, 2), (2, 1), (3, 3), (4, 4), (5, 5), (6, 6)]"
    "complete_pairs sample_canonical = [(1, 1), (2, 2), (3, 3)]"
    "complete_pairs sample_no_pairs = []"
    by (simp_all add: complete_pairs_def sample_swapped_def sample_canonical_def
        sample_no_pairs_def getitem_def)
  have m: "mean [1, 2, 3] = 2" "mean [1, 2, 3, 4, 5, 6] = 7 / 2" "mean [2, 1, 3, 4, 5, 6] = 7 / 2"
    by (simp_all add: mean_def)
  have x: "sxy [1, 2, 3] [1, 2, 3] = 2"
    "sxy [1, 2, 3, 4, 5, 6] [1, 2, 3, 4, 5, 6] = 35 / 2"
    "sxy [2, 1, 3, 4, 5, 6] [2, 1, 3, 4, 5, 6] = 35 / 2"
    "sxy [1, 2, 3, 4, 5, 6] [2, 1, 3, 4, 5, 6] = 33 / 2"
    by (simp_all add: sxy_def m)
  have i: "isqrt 1000000000000000000000000 = 1000000000000"
    "isqrt 888979591836734693877551 = 942857142857"
    by simp_all
  have f: "\<lfloor>(33 / 2 :: real) ^ 2 / (35 / 2 * (35 / 2)) * 10 ^ 24\<rfloor> = 888979591836734693877551"
    by (simp add: floor_eq_iff power2_eq_square)
  have r1: "corr sample_lib [1, 2, 3] [1, 2, 3] = Some 1"
    by (simp add: sample_lib_def sample_corr_def x i)
  have r2: "corr sample_lib [1, 2, 3, 4, 5, 6] [2, 1, 3, 4, 5, 6] = Some (942857142857 / 10 ^ 12)"
    by (simp only: sample_lib_def pylib.simps sample_corr_def x Let_def f) (simp add: i)
  from correlation_spec [of sample_lib sample_swapped] c h q r2
  obtain r where a: "correlation sample_lib (Some sample_swapped) = Inr (AFloat r)"
    and "is_round6 (942857142857 / 10 ^ 12) r"
    by auto
  then obtain k :: int where k: "r = of_int k / 10 ^ 6"
    and n: "\<bar>r - 942857142857 / 10 ^ 12\<bar> \<le> 5 / 10 ^ 7"
    unfolding is_round6_def by blast
  from n have "942856 < real_of_int k" "real_of_int k < 942858"
    unfolding k by (simp_all add: abs_le_iff field_simps)
  then have "k = 942857"
    by linarith
  with a k have s: "correlation sample_lib (Some sample_swapped) = Inr (AFloat (942857 / 10 ^ 6))"
    by simp
  from correlation_spec [of sample_lib sample_canonical] c h q r1
  obtain r' where "correlation sample_lib (Some sample_canonical) = Inr (AFloat r')"
    and "is_round6 1 r'"
    by auto
  then obtain k' :: int where a': "correlation sample_lib (Some sample_canonical) = Inr (AFloat r')"
    and k': "r' = of_int k' / 10 ^ 6" and n': "\<bar>r' - 1\<bar> \<le> 5 / 10 ^ 7"
    unfolding is_round6_def by blast
  from n' have "\<bar>real_of_int k' / 1000000 - 1\<bar> \<le> 5 / 10000000"
    unfolding k' by simp
  then have "999999 < real_of_int k'" "real_of_int k' < 1000001"
    by linarith+
  then have "k' = 1000000"
    by linarith
  with a' k' have o: "correlation sample_lib (Some sample_canonical) = Inr (AFloat 1)"
    by simp
  from correlation_spec [of sample_lib sample_no_pairs] c h q
  have b: "correlation sample_lib (Some sample_no_pairs) = Inr (AFloat 0)"
    by auto
  from c q r2 s o b show ?thesis
    by simp
qed

section \<open>Properties of the plot branch\<close>

lemma truncate_take:
  "(if length u > data_uri_limit then take data_uri_limit u else u) = take data_uri_limit u"
  by simp

lemma scatterplot_canonical:
  assumes c: "canonical d" and h: "has_columns d [''Rank'', ''Peak'']"
  shows "scatterplot L (Some d) figs =
           (let sub = complete_pairs d
            in if sub = [] then (Inr (AStr []), figs)
               else (case linregress L (map fst sub) (map snd sub) of
                       Inl e \<Rightarrow> (Inl e, figs + 1)
                     | Inr (slope, intercept) \<Rightarrow>
                         let x_vals = [list_min (map fst sub), list_max (map fst sub)];
                             y_vals = map (\<lambda>x. f_add intercept (f_mul slope (Some x))) x_vals;
                             fig = \<lparr>figsize = (6, 4), scatter = (map fst sub, map snd sub),
                                    trend = Some (x_vals, y_vals)\<rparr>
                         in (Inr (AStr (take data_uri_limit
                                          (''data:image/png;base64,'' @ savefig_b64 L fig))),
                             figs)))"
proof -
  from h have r: "col_nums (getitem d ''Rank'') = Inr (map num_of (getitem d ''Rank''))"
    and p: "col_nums (getitem d ''Peak'') = Inr (map num_of (getitem d ''Peak''))"
    using c by (auto simp: has_columns_def intro: canonical_numeric)
  have q: "dropna2 (map num_of (getitem d ''Rank'')) (map num_of (getitem d ''Peak''))
             = complete_pairs d"
    unfolding complete_pairs_def by (rule dropna2_pairs)
  have "scatterplot L (Some d) figs =
          (let sub = complete_pairs d
           in if sub = [] then (Inr (AStr []), figs)
              else
                let figs = figs + 1;
                    rank = map fst sub;
                    peak = map snd sub
                in (case linregress L rank peak of
                      Inl e \<Rightarrow> (Inl e, figs)
                    | Inr (slope, intercept) \<Rightarrow>
                        let x_vals = [list_min rank, list_max rank];
                            y_vals = map (\<lambda>x. f_add intercept (f_mul slope (Some x))) x_vals;
                            fig = \<lparr>figsize = (6, 4), scatter = (rank, peak),
                                   trend = Some (x_vals, y_vals)\<rparr>;
                            png = savefig_b64 L fig;
                            figs = figs - 1;
                            data_uri = ''data:image/png;base64,'' @ png;
                            data_uri = (if length data_uri > data_uri_limit
                                        then take data_uri_limit data_uri
                                        else data_uri)
                        in (Inr (AStr data_uri), figs)))"
    by (simp only: scatterplot_def option.case h not_True_eq_False if_False r p sum.case q)
  then show ?thesis
    by (simp add: Let_def truncate_take split: sum.splits prod.splits)
qed

lemma scatterplot_result:
  assumes "scatterplot L ndf figs = (Inr (AStr s), figs')"
  shows "s = [] \<or> (\<exists>fig. s = take data_uri_limit (''data:image/png;base64,'' @ savefig_b64 L fig))"
  using assms
  unfolding scatterplot_def Let_def truncate_take
  by (auto split: option.splits sum.splits if_splits prod.splits)

text \<open>
  Claim C10. For a question routed to the plot, when normalization returned no table, or
  when the canonical table has the \<open>Rank\<close> and \<open>Peak\<close> columns but no row in which both
  values are present, the answer is the empty string: no image, no sentinel, no
  exception, and no figure is opened.
\<close>

theorem scatterplot_no_data:
  "dispatch q = PlotRenderer \<longrightarrow>
     answer_one L None q figs = (Inr (AStr []), figs)
     \<and> (canonical d \<and> has_columns d [''Rank'', ''Peak''] \<and> complete_pairs d = []
        \<longrightarrow> answer_one L (Some d) q figs = (Inr (AStr []), figs))"
proof (intro impI conjI)
  assume "dispatch q = PlotRenderer"
  then have a: "answer_one L ndf q figs = scatterplot L ndf figs" for ndf
    by (simp add: answer_one_dispatch run_handler_def)
  show "answer_one L None q figs = (Inr (AStr []), figs)"
    by (simp add: a scatterplot_def)
  assume "canonical d \<and> has_columns d [''Rank'', ''Peak''] \<and> complete_pairs d = []"
  then show "answer_one L (Some d) q figs = (Inr (AStr []), figs)"
    by (simp add: a scatterplot_canonical)
qed

theorem scatterplot_no_data_witness:
  "dispatch ''Draw a scatterplot of Rank and Peak'' = PlotRenderer
   \<and> canonical sample_no_pairs \<and> has_columns sample_no_pairs [''Rank'', ''Peak'']
   \<and> complete_pairs sample_no_pairs = []
   \<and> answer_one sample_lib (Some sample_no_pairs) ''Draw a scatterplot of Rank and Peak'' 0
       = (Inr (AStr []), 0)
   \<and> answer_one sample_lib None ''Draw a scatterplot of Rank and Peak'' 0 = (Inr (AStr []), 0)"
proof -
  have d: "dispatch ''Draw a scatterplot of Rank and Peak'' = PlotRenderer"
    by (simp add: dispatch_cases string_eval)
  have c: "canonical sample_no_pairs" "has_columns sample_no_pairs [''Rank'', ''Peak'']"
    by (simp_all add: sample_no_pairs_def table_eval)
  have q: "complete_pairs sample_no_pairs = []"
    by (simp add: complete_pairs_def sample_no_pairs_def getitem_def)
  from scatterplot_no_data [of "''Draw a scatterplot of Rank and Peak''" sample_lib 0
      sample_no_pairs] d c q
  show ?thesis
    by simp
qed

text \<open>
  Claim C7. Whatever the table and the library, the string the plot branch answers with
  has at most 100000 characters: it is empty, or it is the first 100000 characters of
  the data URI (the prefix \<open>data:image/png;base64,\<close> followed by the payload), so a
  longer URI is cut to exactly 100000 characters and a shorter one is returned whole.
\<close>

theorem plot_uri_bounded:
  "dispatch q = PlotRenderer \<and> answer_one L ndf q figs = (Inr (AStr s), figs') \<longrightarrow>
     length s \<le> 100000
     \<and> (s = [] \<or>
        (\<exists>fig. let uri = ''data:image/png;base64,'' @ savefig_b64 L fig
               in s = take 100000 uri
                  \<and> (length uri > 100000 \<longrightarrow> length s = 100000)
                  \<and> (length uri \<le> 100000 \<longrightarrow> s = uri)))"
proof
  assume a: "dispatch q = PlotRenderer \<and> answer_one L ndf q figs = (Inr (AStr s), figs')"
  then have "scatterplot L ndf figs = (Inr (AStr s), figs')"
    by (auto simp: answer_one_dispatch run_handler_def)
  then have "s = [] \<or> (\<exists>fig. s = take 100000 (''data:image/png;base64,'' @ savefig_b64 L fig))"
    using scatterplot_result [of L ndf figs s figs'] by (simp add: data_uri_limit_def)
  then show "length s \<le> 100000
     \<and> (s = [] \<or>
        (\<exists>fig. let uri = ''data:image/png;base64,'' @ savefig_b64 L fig
               in s = take 100000 uri
                  \<and> (length uri > 100000 \<longrightarrow> length s = 100000)
                  \<and> (length uri \<le> 100000 \<longrightarrow> s = uri)))"
  proof
    assume "s = []"
    then show ?thesis by simp
  next
    assume "\<exists>fig. s = take 100000 (''data:image/png;base64,'' @ savefig_b64 L fig)"
    then obtain fig where s: "s = take 100000 (''data:image/png;base64,'' @ savefig_b64 L fig)"
      by blast
    have "length s \<le> 100000"
      unfolding s by simp
    moreover have "let uri = ''data:image/png;base64,'' @ savefig_b64 L fig
               in s = take 100000 uri
                  \<and> (length uri > 100000 \<longrightarrow> length s = 100000)
                  \<and> (length uri \<le> 100000 \<longrightarrow> s = uri)"
      unfolding s Let_def by simp
    ultimately show ?thesis
      by blast
  qed
qed

lemmas normalize_eval = normalize_df_def strip_columns_def alias_gross_def needs_rename_def
  find_gross_col_def gross_aliases_def add_gross_num_def coerce_numeric_def coerce_col_def
  setitem_def rename_col_def to_numeric_def

lemma sample_fit: "linregress sample_lib [1, 2, 3] [1, 2, 3] = Inr (Some 1, Some 0)"
proof -
  have m: "mean [1, 2, 3] = 2"
    by (simp add: mean_def)
  have x: "sxy [1, 2, 3] [1, 2, 3] = 2"
    by (simp add: sxy_def m)
  show ?thesis
    by (simp add: sample_lib_def sample_linregress_def list_max_def list_min_def x m)
qed

theorem plot_uri_bounded_witness:
  "dispatch ''Draw a scatterplot of Rank and Peak'' = PlotRenderer
   \<and> answer_one long_png_lib (Some sample_canonical) ''Draw a scatterplot of Rank and Peak'' 0
       = (Inr (AStr (''data:image/png;base64,'' @ replicate 99978 CHR ''A'')), 0)
   \<and> length (''data:image/png;base64,'' @ replicate 99978 CHR ''A'') \<le> 100000"
proof -
  let ?q = "''Draw a scatterplot of Rank and Peak''"
  have d: "dispatch ?q = PlotRenderer"
    by (simp add: dispatch_cases string_eval)
  have c: "canonical sample_canonical" "has_columns sample_canonical [''Rank'', ''Peak'']"
    by (simp_all add: sample_canonical_def table_eval)
  have p: "complete_pairs sample_canonical = [(1, 1), (2, 2), (3, 3)]"
    by (simp add: complete_pairs_def sample_canonical_def getitem_def)
  have f: "linregress long_png_lib [1, 2, 3] [1, 2, 3] = Inr (Some 1, Some 0)"
    using sample_fit by (simp add: long_png_lib_def)
  have g: "savefig_b64 long_png_lib fig = replicate 100000 CHR ''A''" for fig
    by (simp add: long_png_lib_def)
  have a: "answer_one long_png_lib (Some sample_canonical) ?q 0
             = (Inr (AStr (''data:image/png;base64,'' @ replicate 99978 CHR ''A'')), 0)"
    using d by (simp add: answer_one_dispatch run_handler_def scatterplot_canonical [OF c] p f g
        data_uri_limit_def)
  from plot_uri_bounded [of ?q long_png_lib "Some sample_canonical" 0
      "''data:image/png;base64,'' @ replicate 99978 CHR ''A''" 0] d a
  have "length (''data:image/png;base64,'' @ replicate 99978 CHR ''A'') \<le> 100000"
    by blast
  with d a show ?thesis
    by blast
qed

text \<open>
  Claim C1, which the code does not meet. In \<open>answer_questions\<close> the regression fit is not
  guarded: when \<open>linregress\<close> raises, the exception leaves the loop, no answer list is
  returned, and the figure opened by \<open>plt.subplots\<close> is never closed. The theorem states
  what the code does; the instance below runs it on a table with two rows of equal
  \<open>Rank\<close>, where the fit of the library raises \<open>ValueError\<close>.
\<close>

theorem scatterplot_fit_failure:
  "dispatch q = PlotRenderer \<and> canonical d \<and> has_columns d [''Rank'', ''Peak'']
   \<and> complete_pairs d \<noteq> []
   \<and> linregress L (map fst (complete_pairs d)) (map snd (complete_pairs d)) = Inl e
   \<longrightarrow> answer_one L (Some d) q figs = (Inl e, figs + 1)
       \<and> answer_loop L (Some d) (q # qs) answers figs = (Inl e, figs + 1)"
proof
  assume a: "dispatch q = PlotRenderer \<and> canonical d \<and> has_columns d [''Rank'', ''Peak'']
   \<and> complete_pairs d \<noteq> []
   \<and> linregress L (map fst (complete_pairs d)) (map snd (complete_pairs d)) = Inl e"
  then have "answer_one L (Some d) q figs = scatterplot L (Some d) figs"
    by (simp add: answer_one_dispatch run_handler_def)
  also have "\<dots> = (Inl e, figs + 1)"
    using a by (simp add: scatterplot_canonical Let_def)
  finally have o: "answer_one L (Some d) q figs = (Inl e, figs + 1)" .
  then show "answer_one L (Some d) q figs = (Inl e, figs + 1)
       \<and> answer_loop L (Some d) (q # qs) answers figs = (Inl e, figs + 1)"
    by simp
qed

theorem scatterplot_fit_failure_witness:
  "canonical sample_identical_rank
   \<and> complete_pairs sample_identical_rank = [(1, 1), (1, 2)]
   \<and> linregress sample_lib [1, 1] [1, 2] = Inl ValueError
   \<and> answer_questions sample_lib ''Draw a scatterplot of Rank and Peak''
        (Some sample_identical_rank) 0 = (Inl ValueError, 1)"
proof -
  let ?q = "''Draw a scatterplot of Rank and Peak''"
  have d: "dispatch ?q = PlotRenderer"
    by (simp add: dispatch_cases string_eval)
  have c: "canonical sample_identical_rank" "has_columns sample_identical_rank [''Rank'', ''Peak'']"
    by (simp_all add: sample_identical_rank_def table_eval)
  have p: "complete_pairs sample_identical_rank = [(1, 1), (1, 2)]"
    by (simp add: complete_pairs_def sample_identical_rank_def getitem_def)
  have f: "linregress sample_lib [1, 1] [1, 2] = Inl ValueError"
    by (simp add: sample_lib_def sample_linregress_def list_max_def list_min_def)
  have n: "normalize_df sample_lib (Some sample_identical_rank) = Some sample_identical_rank"
    by (simp add: sample_identical_rank_def normalize_eval string_eval table_eval)
  have s: "segment_questions ?q = [?q]"
    by (simp add: segment_questions_def re_match_enum_def string_eval)
  from scatterplot_fit_failure [of ?q sample_identical_rank sample_lib ValueError 0 "[]" "[]"]
    d c p f
  have "answer_loop sample_lib (Some sample_identical_rank) [?q] [] 0 = (Inl ValueError, 1)"
    by simp
  then have "answer_questions sample_lib ?q (Some sample_identical_rank) 0 = (Inl ValueError, 1)"
    by (simp add: answer_questions_def n s)
  with c p f show ?thesis
    by simp
qed

section \<open>Properties of the column normalizer\<close>

subsection \<open>Trimming\<close>

lemma strip_fixed:
  assumes "s = [] \<or> (\<not> is_space (hd s) \<and> \<not> is_space (last s))"
  shows "strip s = s"
proof (cases "s = []")
  case True
  then show ?thesis by (simp add: strip_def)
next
  case False
  with assms have h: "\<not> is_space (hd s)" and l: "\<not> is_space (last s)"
    by simp_all
  from h have a: "dropWhile is_space s = s"
    by (simp add: dropWhile_eq_self_iff)
  from l False have "dropWhile is_space (rev s) = rev s"
    by (simp add: dropWhile_eq_self_iff hd_rev)
  with a show ?thesis
    by (simp add: strip_def)
qed

lemma strip_idem: "strip (strip s) = strip s"
  by (rule strip_fixed) (rule strip_ends)

subsection \<open>Columns after an assignment\<close>

lemma columns_setitem:
  "columns (setitem c v d) = (if c \<in> set (columns d) then columns d else columns d @ [c])"
  by (simp add: columns_def setitem_def update_keys)

lemma getitem_setitem: "getitem (setitem c v d) c' = (if c' = c then v else getitem d c')"
  by (simp add: getitem_def setitem_def update_conv')

lemma nrows_setitem: "nrows (setitem c v d) = nrows d"
  by (simp add: setitem_def)

lemma setitem_same:
  assumes "c \<in> set (columns d)" and "getitem d c = v"
  shows "setitem c v d = d"
proof -
  from assms(1) have "map_of (cols d) c \<noteq> None"
    by (simp add: columns_def map_of_eq_None_iff)
  then obtain w where w: "map_of (cols d) c = Some w"
    by blast
  with assms(2) have "map_of (cols d) c = Some v"
    by (simp add: getitem_def)
  then show ?thesis
    by (simp add: setitem_def update_triv)
qed

lemma to_numeric_idem: "to_numeric L (to_numeric L x) = to_numeric L x"
  by (cases x) (simp_all add: to_numeric_def split: option.splits)

lemma to_numeric_numeric: "numeric_col (map (to_numeric L) v)"
  by (induction v) (auto simp: numeric_col_def to_numeric_def split: cell.splits option.splits)

lemma columns_coerce_col: "columns (coerce_col L c d) = columns d"
  by (simp add: coerce_col_def columns_setitem)

lemma getitem_coerce_col:
  "getitem (coerce_col L c d) c' = (if c' = c then map (to_numeric L) (getitem d c) else getitem d c')"
proof (cases "c \<in> set (columns d)")
  case True
  then show ?thesis by (simp add: coerce_col_def getitem_setitem)
next
  case False
  then have "map_of (cols d) c = None"
    by (simp add: columns_def map_of_eq_None_iff)
  then have "getitem d c = []"
    by (simp add: getitem_def)
  with False show ?thesis
    by (simp add: coerce_col_def)
qed

lemma nrows_coerce_col: "nrows (coerce_col L c d) = nrows d"
  by (simp add: coerce_col_def nrows_setitem)

lemma coerce_col_same:
  assumes "map (to_numeric L) (getitem d c) = getitem d c"
  shows "coerce_col L c d = d"
  using assms by (simp add: coerce_col_def setitem_same)

lemma columns_coerce_numeric: "columns (coerce_numeric L d) = columns d"
  by (simp add: coerce_numeric_def columns_coerce_col)

lemma nrows_coerce_numeric: "nrows (coerce_numeric L d) = nrows d"
  by (simp add: coerce_numeric_def nrows_coerce_col)

lemma getitem_coerce_numeric:
  "getitem (coerce_numeric L d) c =
     (if c \<in> set [''Year'', ''Rank'', ''Peak''] then map (to_numeric L) (getitem d c)
      else getitem d c)"
  by (simp add: coerce_numeric_def getitem_coerce_col)

lemma coerce_numeric_idem: "coerce_numeric L (coerce_numeric L d) = coerce_numeric L d"
proof -
  define e where "e = coerce_numeric L d"
  have g: "map (to_numeric L) (getitem e c) = getitem e c"
    if "c \<in> set [''Year'', ''Rank'', ''Peak'']" for c
    using that by (simp add: e_def getitem_coerce_numeric to_numeric_idem)
  have "coerce_numeric L e = e"
    by (simp add: coerce_numeric_def coerce_col_same g)
  then show ?thesis
    by (simp add: e_def)
qed

subsection \<open>The stages of the normalizer\<close>

lemma columns_strip_columns: "columns (strip_columns d) = map strip (columns d)"
  by (simp add: strip_columns_def columns_def split_def)

lemma strip_columns_same:
  assumes "\<forall>c\<in>set (columns d). strip c = c"
  shows "strip_columns d = d"
proof -
  have "map (\<lambda>(c, v). (strip c, v)) (cols d) = cols d"
    using assms by (intro map_idI) (auto simp: columns_def)
  then show ?thesis
    by (simp add: strip_columns_def)
qed

lemma find_gross_col_cases:
  "find_gross_col d =
     (if ''Gross'' \<in> set (columns d) then Some ''Gross''
      else if ''Worldwide gross'' \<in> set (columns d) then Some ''Worldwide gross''
      else if ''Worldwide Gross'' \<in> set (columns d) then Some ''Worldwide Gross''
      else if ''Worldwide box office'' \<in> set (columns d) then Some ''Worldwide box office''
      else None)"
  by (simp add: find_gross_col_def gross_aliases_def)

lemma columns_rename_col:
  "columns (rename_col old new d) = map (\<lambda>k. if k = old then new else k) (columns d)"
  by (simp add: rename_col_def columns_def split_def)



lemma alias_gross_none:
  assumes "find_gross_col d = None"
  shows "alias_gross d = d"
  using assms by (simp add: alias_gross_def needs_rename_def)

lemma alias_gross_has:
  assumes "find_gross_col d \<noteq> None"
  shows "''Gross'' \<in> set (columns (alias_gross d))"
proof (cases "''Gross'' \<in> set (columns d)")
  case True
  then show ?thesis by (simp add: alias_gross_def needs_rename_def)
next
  case False
  from assms obtain g where g: "find_gross_col d = Some g"
    by blast
  then have "g \<in> set (columns d)"
    by (auto simp: find_gross_col_def find_Some_iff)
  with False g show ?thesis
    by (auto simp: alias_gross_def needs_rename_def columns_rename_col)
qed

lemma columns_add_gross_num:
  "columns (add_gross_num L d) =
     (if ''Gross'' \<in> set (columns d) \<and> ''GrossNum'' \<notin> set (columns d)
      then columns d @ [''GrossNum''] else columns d)"
  by (simp add: add_gross_num_def columns_setitem)

lemma getitem_add_gross_num:
  "getitem (add_gross_num L d) c =
     (if c = ''GrossNum'' \<and> ''Gross'' \<in> set (columns d)
      then map (parse_gross L) (series_values (getitem d ''Gross'')) else getitem d c)"
  by (simp add: add_gross_num_def getitem_setitem)

lemma find_gross_col_add_gross_num:
  "find_gross_col (coerce_numeric L (add_gross_num L d)) = find_gross_col d"
  by (simp add: find_gross_col_cases columns_coerce_numeric columns_add_gross_num)

lemma stages_fixed:
  fixes L d
  defines "out \<equiv> coerce_numeric L (add_gross_num L (alias_gross (strip_columns d)))"
  shows "strip_columns out = out" and "alias_gross out = out"
    and "add_gross_num L out = out" and "coerce_numeric L out = out"
proof -
  define d1 where "d1 = strip_columns d"
  define d2 where "d2 = alias_gross d1"
  have out: "out = coerce_numeric L (add_gross_num L d2)"
    by (simp add: out_def d1_def d2_def)
  have s1: "\<forall>c\<in>set (columns d1). strip c = c"
    by (auto simp: d1_def columns_strip_columns strip_idem)
  have g: "strip ''Gross'' = ''Gross''" and n: "strip ''GrossNum'' = ''GrossNum''"
    by (simp_all add: strip_def is_space_def)
  from s1 g have s2: "\<forall>c\<in>set (columns d2). strip c = c"
    by (auto simp: d2_def alias_gross_def columns_rename_col split: option.splits)
  with n have "\<forall>c\<in>set (columns out). strip c = c"
    by (auto simp: out columns_coerce_numeric columns_add_gross_num split: if_splits)
  then show "strip_columns out = out"
    by (rule strip_columns_same)
  have f: "find_gross_col out = find_gross_col d2"
    by (simp add: out find_gross_col_add_gross_num)
  show "alias_gross out = out"
  proof (cases "find_gross_col d1 = None")
    case True
    then have "d2 = d1"
      by (simp add: d2_def alias_gross_none)
    with True f show ?thesis
      by (simp add: alias_gross_none)
  next
    case False
    then have "''Gross'' \<in> set (columns d2)"
      unfolding d2_def by (rule alias_gross_has)
    then have "''Gross'' \<in> set (columns out)"
      by (simp add: out columns_coerce_numeric columns_add_gross_num)
    then show ?thesis
      by (simp add: alias_gross_def needs_rename_def)
  qed
  show "add_gross_num L out = out"
  proof (cases "''Gross'' \<in> set (columns out)")
    case False
    then show ?thesis by (simp add: add_gross_num_def)
  next
    case True
    then have h: "''Gross'' \<in> set (columns d2)"
      by (simp add: out columns_coerce_numeric columns_add_gross_num split: if_splits)
    then have m: "''GrossNum'' \<in> set (columns out)"
      by (simp add: out columns_coerce_numeric columns_add_gross_num)
    have "getitem out ''GrossNum'' = map (parse_gross L) (series_values (getitem out ''Gross''))"
      using h by (simp add: out getitem_coerce_numeric getitem_add_gross_num)
    with m True show ?thesis
      by (simp add: add_gross_num_def setitem_same)
  qed
  show "coerce_numeric L out = out"
    by (simp add: out coerce_numeric_idem)
qed

lemma normalize_df_Some:
  assumes "\<not> df_empty d"
  shows "normalize_df L (Some d)
           = Some (coerce_numeric L (add_gross_num L (alias_gross (strip_columns d))))"
  using assms by (simp add: normalize_df_def)

lemma nrows_stages:
  "nrows (coerce_numeric L (add_gross_num L (alias_gross (strip_columns d)))) = nrows d"
  by (simp add: nrows_coerce_numeric add_gross_num_def nrows_setitem alias_gross_def
      rename_col_def strip_columns_def split: option.splits)

lemma cols_stages:
  assumes "cols d \<noteq> []"
  shows "cols (coerce_numeric L (add_gross_num L (alias_gross (strip_columns d)))) \<noteq> []"
proof -
  have "columns d \<noteq> []"
    using assms by (simp add: columns_def)
  then have "columns (coerce_numeric L (add_gross_num L (alias_gross (strip_columns d)))) \<noteq> []"
    by (simp add: columns_coerce_numeric columns_add_gross_num alias_gross_def
        columns_rename_col columns_strip_columns split: option.splits)
  then show ?thesis
    by (auto simp: columns_def)
qed

lemma stages_not_empty:
  assumes "\<not> df_empty d"
  shows "\<not> df_empty (coerce_numeric L (add_gross_num L (alias_gross (strip_columns d))))"
  using assms by (simp add: df_empty_def nrows_stages cols_stages)

lemmas parse_eval = parse_gross_def py_float_def digits_val_def digit_val_def py_str_def
  series_values_def dtype_of_def to_numeric_def

lemma normalize_sample_films: "normalize_df sample_lib (Some sample_films) = Some sample_canonical"
  by (simp add: sample_films_def sample_canonical_def sample_lib_def normalize_eval parse_eval
      string_eval table_eval)

text \<open>
  Claim C4. Normalization is idempotent: on a table whose trimmed labels are pairwise
  distinct, and on the absent table, normalizing the result of the normalizer returns
  that result. Each stage (trimming the labels, renaming the gross column, deriving
  \<open>GrossNum\<close>, coercing the numeric columns) leaves a normalized table as it is.
\<close>

theorem normalize_idempotent:
  "(case df of None \<Rightarrow> True | Some d \<Rightarrow> wf_df d) \<longrightarrow>
     normalize_df L (normalize_df L df) = normalize_df L df
     \<and> (\<forall>out. normalize_df L df = Some out \<longrightarrow>
            strip_columns out = out \<and> alias_gross out = out
            \<and> add_gross_num L out = out \<and> coerce_numeric L out = out)"
proof (cases df)
  case None
  then show ?thesis
    by (simp add: normalize_df_def)
next
  case (Some d)
  show ?thesis
  proof (cases "df_empty d")
    case True
    with Some show ?thesis
      by (simp add: normalize_df_def)
  next
    case False
    define out where "out = coerce_numeric L (add_gross_num L (alias_gross (strip_columns d)))"
    from False have n: "normalize_df L (Some d) = Some out"
      by (simp add: normalize_df_Some out_def)
    from False have "\<not> df_empty out"
      unfolding out_def by (rule stages_not_empty)
    then have "normalize_df L (Some out)
                 = Some (coerce_numeric L (add_gross_num L (alias_gross (strip_columns out))))"
      by (rule normalize_df_Some)
    also have "\<dots> = Some out"
      by (simp add: out_def stages_fixed)
    finally have "normalize_df L (normalize_df L (Some d)) = normalize_df L (Some d)"
      by (simp add: n)
    moreover have "strip_columns out = out \<and> alias_gross out = out
            \<and> add_gross_num L out = out \<and> coerce_numeric L out = out"
      by (simp add: out_def stages_fixed)
    ultimately show ?thesis
      using Some n by simp
  qed
qed

theorem normalize_idempotent_witness:
  "wf_df sample_films
   \<and> normalize_df sample_lib (Some sample_films) = Some sample_canonical
   \<and> sample_canonical \<noteq> sample_films
   \<and> normalize_df sample_lib (Some sample_canonical) = Some sample_canonical
   \<and> add_gross_num sample_lib sample_canonical = sample_canonical"
proof -
  have w: "wf_df sample_films"
    by (simp add: wf_df_def sample_films_def columns_def strip_def is_space_def)
  have d: "sample_canonical \<noteq> sample_films"
    by (simp add: sample_canonical_def sample_films_def)
  note n = normalize_sample_films
  from normalize_idempotent [of "Some sample_films" sample_lib] w n
  have "normalize_df sample_lib (Some sample_canonical) = Some sample_canonical"
    and "add_gross_num sample_lib sample_canonical = sample_canonical"
    by simp_all
  with w n d show ?thesis
    by simp
qed

subsection \<open>The normalizer on the store\<close>







subsection \<open>Reading the gross\<close>
























end
